theory Spec2Isabelle
  imports Complex_Main
begin

section \<open>The Go string functions the program calls\<close>

text \<open>
  Go strings are byte sequences; a \<^typ>\<open>string\<close> is the list of those bytes.
  The functions of this section stand for the standard library calls of
  \<^verbatim>\<open>src/cmd/main.go\<close>: \<^verbatim>\<open>strings.Split\<close>, \<^verbatim>\<open>strings.Join\<close>,
  \<^verbatim>\<open>strings.SplitN\<close>, \<^verbatim>\<open>strings.TrimSpace\<close> and \<^verbatim>\<open>strings.TrimPrefix\<close>.
\<close>

definition NL :: char where
  "NL = CHR 0x0A"

text \<open>\<^verbatim>\<open>strings.Split(s, "\n")\<close>, for a one-byte separator: never the empty list.\<close>

fun Split :: "char \<Rightarrow> string \<Rightarrow> string list" where
  "Split sep [] = [[]]"
| "Split sep (c # cs) =
     (if c = sep then [] # Split sep cs
      else (case Split sep cs of l # ls \<Rightarrow> (c # l) # ls))"

text \<open>\<^verbatim>\<open>strings.Join(lines, "\n")\<close>.\<close>

fun Join :: "string list \<Rightarrow> char \<Rightarrow> string" where
  "Join [] sep = []"
| "Join [l] sep = l"
| "Join (l # ls) sep = l @ sep # Join ls sep"

text \<open>
  \<^verbatim>\<open>strings.SplitN(s, sep, 2)\<close> for a non-empty \<open>sep\<close>: one element when \<open>sep\<close>
  does not occur, otherwise the text before and the text after its first occurrence.
\<close>

fun SplitN2 :: "string \<Rightarrow> string \<Rightarrow> string list" where
  "SplitN2 [] sep = [[]]"
| "SplitN2 (c # cs) sep =
     (if take (length sep) (c # cs) = sep then [[], drop (length sep) (c # cs)]
      else (case SplitN2 cs sep of a # r \<Rightarrow> (c # a) # r))"

text \<open>
  \<^verbatim>\<open>strings.TrimSpace\<close> removes the leading and the trailing white space runes, as
  \<^verbatim>\<open>unicode.IsSpace\<close> defines them: six ASCII bytes, and the runes U+0085, U+00A0,
  U+1680, U+2000 to U+200A, U+2028, U+2029, U+202F, U+205F and U+3000, listed here in
  their UTF-8 encoding.
\<close>

definition asciiSpace :: "char \<Rightarrow> bool" where
  "asciiSpace c \<longleftrightarrow>
     c \<in> set [CHR 0x09, CHR 0x0A, CHR 0x0B, CHR 0x0C, CHR 0x0D, CHR 0x20]"

definition unicodeSpace :: "string list" where
  "unicodeSpace =
     [[CHR 0xC2, CHR 0x85], [CHR 0xC2, CHR 0xA0], [CHR 0xE1, CHR 0x9A, CHR 0x80],
      [CHR 0xE2, CHR 0x80, CHR 0x80], [CHR 0xE2, CHR 0x80, CHR 0x81],
      [CHR 0xE2, CHR 0x80, CHR 0x82], [CHR 0xE2, CHR 0x80, CHR 0x83],
      [CHR 0xE2, CHR 0x80, CHR 0x84], [CHR 0xE2, CHR 0x80, CHR 0x85],
      [CHR 0xE2, CHR 0x80, CHR 0x86], [CHR 0xE2, CHR 0x80, CHR 0x87],
      [CHR 0xE2, CHR 0x80, CHR 0x88], [CHR 0xE2, CHR 0x80, CHR 0x89],
      [CHR 0xE2, CHR 0x80, CHR 0x8A], [CHR 0xE2, CHR 0x80, CHR 0xA8],
      [CHR 0xE2, CHR 0x80, CHR 0xA9], [CHR 0xE2, CHR 0x80, CHR 0xAF],
      [CHR 0xE2, CHR 0x81, CHR 0x9F], [CHR 0xE3, CHR 0x80, CHR 0x80]]"

text \<open>
  The number of bytes of the white space rune a string starts with (0 when it starts
  with none); \<open>wide\<close> lists the multi-byte encodings to look for.
\<close>

definition spaceWidth :: "string list \<Rightarrow> string \<Rightarrow> nat" where
  "spaceWidth wide s =
     (case s of
        [] \<Rightarrow> 0
      | c # _ \<Rightarrow>
          if asciiSpace c then 1
          else (case find (\<lambda>u. take (length u) s = u) wide of
                  Some u \<Rightarrow> length u
                | None \<Rightarrow> 0))"

fun trimStart :: "string list \<Rightarrow> string \<Rightarrow> string" where
  "trimStart wide [] = []"
| "trimStart wide (c # cs) =
     (if spaceWidth wide (c # cs) = 0 then c # cs
      else trimStart wide (drop (spaceWidth wide (c # cs) - 1) cs))"

text \<open>
  The trailing runes are read from the end: a string ends with an encoding exactly when
  its reversal starts with the reversed encoding.
\<close>

definition TrimSpace :: "string \<Rightarrow> string" where
  "TrimSpace s =
     rev (trimStart (map rev unicodeSpace) (rev (trimStart unicodeSpace s)))"

definition TrimPrefix :: "string \<Rightarrow> string \<Rightarrow> string" where
  "TrimPrefix s p = (if take (length p) s = p then drop (length p) s else s)"

section \<open>The diff normalizer\<close>

text \<open>
  The four regular expressions of \<^verbatim>\<open>main.go\<close> are applied to one line at a time (a
  line holds no newline), each through \<^verbatim>\<open>ReplaceAllString\<close>. All four are anchored
  with \<^verbatim>\<open>^\<close>, so each matches at most once, at the start of the line; the function
  for a regular expression returns the line with that match replaced, or the line itself
  when it does not match.
\<close>

definition hexLower :: "char \<Rightarrow> bool" where
  "hexLower c \<longleftrightarrow> c \<in> set ''0123456789abcdef''"

definition decDigit :: "char \<Rightarrow> bool" where
  "decDigit c \<longleftrightarrow> c \<in> set ''0123456789''"

text \<open>
  \<^verbatim>\<open>indexRegxp = ^index [0-9a-f]{8}\.\.[0-9a-f]{8} ([0-9]{6})$\<close>, replaced by
  \<^verbatim>\<open>index zzzzzzzz..zzzzzzzz $1\<close>.
\<close>

definition indexRegxp :: "string \<Rightarrow> string" where
  "indexRegxp l =
     (let src = take 8 (drop 6 l); dst = take 8 (drop 16 l); mode = drop 25 l in
      if take 6 l = ''index '' \<and> length src = 8 \<and> list_all hexLower src
         \<and> take 2 (drop 14 l) = ''..'' \<and> length dst = 8 \<and> list_all hexLower dst
         \<and> take 1 (drop 24 l) = '' '' \<and> length mode = 6 \<and> list_all decDigit mode
      then ''index zzzzzzzz..zzzzzzzz '' @ mode
      else l)"

text \<open>
  \<^verbatim>\<open>indexRegxpNewFile = ^index 0{8}\.\..*$\<close>, replaced by
  \<^verbatim>\<open>index 00000000..zzzzzzzz\<close>.
\<close>

definition indexRegxpNewFile :: "string \<Rightarrow> string" where
  "indexRegxpNewFile l =
     (if take 16 l = ''index 00000000..'' then ''index 00000000..zzzzzzzz'' else l)"

text \<open>
  \<^verbatim>\<open>indexRegxpDeleteFile = ^index [0-9a-f]{8}\.\..*$\<close>, replaced by
  \<^verbatim>\<open>index zzzzzzzz..00000000\<close>.
\<close>

definition indexRegxpDeleteFile :: "string \<Rightarrow> string" where
  "indexRegxpDeleteFile l =
     (let src = take 8 (drop 6 l) in
      if take 6 l = ''index '' \<and> length src = 8 \<and> list_all hexLower src
         \<and> take 2 (drop 14 l) = ''..''
      then ''index zzzzzzzz..00000000''
      else l)"

text \<open>
  \<^verbatim>\<open>changeLocation = ^@@ [^@]* @@\<close>, replaced by \<^verbatim>\<open>@@ ... @@\<close>. The class
  \<^verbatim>\<open>[^@]*\<close> cannot run past the first \<^verbatim>\<open>@\<close> after the opening \<^verbatim>\<open>@@ \<close>, so
  the only possible match ends at the \<^verbatim>\<open>@@\<close> standing there, with a space before it.
\<close>

definition changeLocation :: "string \<Rightarrow> string" where
  "changeLocation l =
     (let body = drop 3 l;
          inner = takeWhile (\<lambda>c. c \<noteq> CHR ''@'') body;
          rest = dropWhile (\<lambda>c. c \<noteq> CHR ''@'') body in
      if take 3 l = ''@@ '' \<and> inner \<noteq> [] \<and> last inner = CHR '' ''
         \<and> take 2 rest = ''@@''
      then ''@@ ... @@'' @ drop 2 rest
      else l)"

text \<open>The body of the loop over the lines.\<close>

definition normalizeLine :: "string \<Rightarrow> string" where
  "normalizeLine l =
     changeLocation (indexRegxpDeleteFile (indexRegxpNewFile (indexRegxp l)))"

definition removeGitShaFromGitDiff :: "string \<Rightarrow> string" where
  "removeGitShaFromGitDiff gitDiff =
     Join (map normalizeLine (Split NL gitDiff)) NL @ [NL]"

section \<open>The world outside the program\<close>

text \<open>
  The program reads the repository only through \<^verbatim>\<open>exec.Command(args...).Output()\<close>
  and compares strings only through \<^verbatim>\<open>beda.NewStringDiff(a, b).JaroWinklerDistance(0.1)\<close>
  of the library \<^verbatim>\<open>github.com/hyperjumptech/beda\<close>, which is not part of the
  repository. Both are parameters of the model: \<open>Output\<close> gives, for a command line,
  the error of the command or its standard output, and \<open>JaroWinklerDistance\<close> the
  score of two strings. What a query prints does not change during a run (the only
  command that changes the repository deletes a branch that is not queried again, and
  leaves its commits), so \<open>Output\<close> is a function of the command line alone. The
  scores are \<^verbatim>\<open>float32\<close> values that the program only compares with each other and
  with constants; they are real numbers here.
\<close>

record world =
  Output :: "string list \<Rightarrow> string + string"
  JaroWinklerDistance :: "string \<Rightarrow> string \<Rightarrow> real"

text \<open>
  What ends a call early: an \<^verbatim>\<open>error\<close> returned to the caller, a \<^verbatim>\<open>panic\<close>, or
  \<^verbatim>\<open>os.Exit\<close>.
\<close>

datatype failure = Error string | Panic string | Exit nat

record CommitDiff =
  Sha :: string
  Subject :: string
  Diff :: string

record PotentialMerge =
  Branch :: string
  MergedSha :: string
  Merged :: bool
  SubjectScore :: real
  DiffScore :: real
  DiffSize :: nat
  NumCommits :: nat
  DiffCmd :: string

record opts =
  Verbose :: bool
  Version :: bool
  Perfect :: bool
  MinSubjectScore :: real
  MinDiffScore :: real

text \<open>A \<^verbatim>\<open>Printf\<close> argument, and a formatted line written to one of the two streams.\<close>

datatype arg = S string | F real | D nat

datatype line = Stdout string "arg list" | Stderr string "arg list"

text \<open>
  The mutable state of one run: the global \<^verbatim>\<open>CommitDiffCache\<close> (a \<^verbatim>\<open>nil\<close> map
  and an empty map are the same map here), the command lines executed so far, oldest
  first, and the lines printed so far.
\<close>

record state =
  CommitDiffCache :: "string \<rightharpoonup> CommitDiff"
  calls :: "string list list"
  printed :: "line list"

definition initial :: state where
  "initial = \<lparr>CommitDiffCache = Map.empty, calls = [], printed = []\<rparr>"

type_synonym 'a prog = "state \<Rightarrow> (failure + 'a) \<times> state"

definition succeed :: "'a \<Rightarrow> 'a prog" where
  "succeed x s = (Inr x, s)"

definition abort :: "failure \<Rightarrow> 'a prog" where
  "abort e s = (Inl e, s)"

text \<open>Sequencing: a failure of the first part ends the whole, in the state reached.\<close>

definition andThen :: "'a prog \<Rightarrow> ('a \<Rightarrow> 'b prog) \<Rightarrow> 'b prog" where
  "andThen m f s = (case m s of (Inl e, s') \<Rightarrow> (Inl e, s') | (Inr x, s') \<Rightarrow> f x s')"

definition print :: "line \<Rightarrow> unit prog" where
  "print l s = (Inr (), s\<lparr>printed := printed s @ [l]\<rparr>)"

text \<open>The value a program returns when started in the initial state.\<close>

definition result :: "'a prog \<Rightarrow> failure + 'a" where
  "result m = fst (m initial)"

section \<open>The git plumbing\<close>

definition runCommandTrimmedOutput :: "world \<Rightarrow> string list \<Rightarrow> string prog" where
  "runCommandTrimmedOutput w args s =
     (if length args = 0 then (Inl (Error ''no command given''), s)
      else (case Output w args of
              Inl err \<Rightarrow> (Inl (Error err), s\<lparr>calls := calls s @ [args]\<rparr>)
            | Inr out \<Rightarrow> (Inr (TrimSpace out), s\<lparr>calls := calls s @ [args]\<rparr>)))"

definition runCommandSplitLines :: "world \<Rightarrow> string list \<Rightarrow> string list prog" where
  "runCommandSplitLines w args =
     andThen (runCommandTrimmedOutput w args) (\<lambda>out. succeed (Split NL out))"

definition branchPrefix :: string where
  "branchPrefix = ''refs/heads/''"

definition getBranches :: "world \<Rightarrow> string list prog" where
  "getBranches w =
     andThen (runCommandSplitLines w
                [''git'', ''for-each-ref'', ''--format=%(refname)'', branchPrefix])
       (\<lambda>lines. succeed
          (filter (\<lambda>branch. branch \<noteq> '''')
             (map (\<lambda>line. TrimPrefix (TrimSpace line) branchPrefix) lines)))"

definition getGitRevParse :: "world \<Rightarrow> string \<Rightarrow> string prog" where
  "getGitRevParse w s = runCommandTrimmedOutput w [''git'', ''rev-parse'', s]"

definition getGitMergeBase :: "world \<Rightarrow> string \<Rightarrow> string \<Rightarrow> string prog" where
  "getGitMergeBase w a b = runCommandTrimmedOutput w [''git'', ''merge-base'', a, b]"

definition getCommitSubject :: "world \<Rightarrow> string \<Rightarrow> string prog" where
  "getCommitSubject w commit =
     runCommandTrimmedOutput w
       [''git'', ''--no-pager'', ''show'', ''--format=format:%s'', ''-s'', commit]"

definition getCurrentBranch :: "world \<Rightarrow> string prog" where
  "getCurrentBranch w =
     andThen (runCommandTrimmedOutput w [''git'', ''symbolic-ref'', ''HEAD''])
       (\<lambda>s. succeed (TrimPrefix s ''refs/heads/''))"

definition getCommitDiffOnly :: "world \<Rightarrow> string \<Rightarrow> string prog" where
  "getCommitDiffOnly w commit =
     andThen (runCommandTrimmedOutput w [''git'', ''--no-pager'', ''show'', commit])
       (\<lambda>contents.
          let parts = SplitN2 contents (NL # ''diff --git'') in
          if length parts \<noteq> 2 then succeed ''''
          else succeed (''diff --git'' @ parts ! 1))"

section \<open>The fingerprint cache\<close>

definition getCommitDiff :: "world \<Rightarrow> string \<Rightarrow> CommitDiff prog" where
  "getCommitDiff w commit s =
     (case CommitDiffCache s commit of
        Some commitDiff \<Rightarrow> (Inr commitDiff, s)
      | None \<Rightarrow>
          andThen (getCommitDiffOnly w commit) (\<lambda>gitDiff.
          andThen (getCommitSubject w commit) (\<lambda>subject. (\<lambda>s'.
            let commitDiff = \<lparr>Sha = commit, Subject = subject,
                               Diff = removeGitShaFromGitDiff gitDiff\<rparr>
            in (Inr commitDiff,
                s'\<lparr>CommitDiffCache := (CommitDiffCache s')(commit \<mapsto> commitDiff)\<rparr>)))) s)"

definition getCommits :: "world \<Rightarrow> string \<Rightarrow> string \<Rightarrow> string list prog" where
  "getCommits w start end' =
     andThen (runCommandSplitLines w
                [''git'', ''log'', ''--format=format:%H'', start @ ''..'' @ end'])
       (\<lambda>lines. succeed (filter (\<lambda>commit. commit \<noteq> '''') (map TrimSpace lines)))"

definition getGitDiff :: "world \<Rightarrow> string \<Rightarrow> string \<Rightarrow> string prog" where
  "getGitDiff w start end' =
     runCommandTrimmedOutput w [''git'', ''--no-pager'', ''diff'', start @ ''..'' @ end']"

section \<open>The merge detector\<close>

text \<open>
  The loop of \<^verbatim>\<open>findMerged\<close> over the trunk's commits. Its three variables are
  \<^verbatim>\<open>highestSubjectScore\<close>, \<^verbatim>\<open>highestDiff\<close> (\<^verbatim>\<open>nil\<close> is \<open>None\<close>) and
  \<^verbatim>\<open>highestCombinedDiff\<close>.
\<close>

fun findMerged_loop ::
  "world \<Rightarrow> CommitDiff \<Rightarrow> string \<Rightarrow> string list
    \<Rightarrow> real \<times> CommitDiff option \<times> string \<Rightarrow> (real \<times> CommitDiff option \<times> string) prog"
where
  "findMerged_loop w branchDiff combinedDiff [] vars s = (Inr vars, s)"
| "findMerged_loop w branchDiff combinedDiff (commit # commits)
       (highestSubjectScore, highestDiff, highestCombinedDiff) s =
     (case getCommitDiff w commit s of
        (Inl err, s') \<Rightarrow> (Inl err, s')
      | (Inr commitDiff, s') \<Rightarrow>
          (let subjectScore = JaroWinklerDistance w (Subject branchDiff) (Subject commitDiff) in
           if subjectScore > highestSubjectScore
           then findMerged_loop w branchDiff combinedDiff commits
                  (subjectScore, Some commitDiff, combinedDiff) s'
           else findMerged_loop w branchDiff combinedDiff commits
                  (highestSubjectScore, highestDiff, highestCombinedDiff) s'))"

definition findMerged :: "world \<Rightarrow> string \<Rightarrow> string \<Rightarrow> PotentialMerge option prog" where
  "findMerged w currentBranch branch =
     andThen (getGitMergeBase w currentBranch branch) (\<lambda>base.
     andThen (getGitRevParse w branch) (\<lambda>branchSha.
     if base = branchSha then
       succeed (Some \<lparr>Branch = branch, MergedSha = base, Merged = True,
                      SubjectScore = 1, DiffScore = 1, DiffSize = 0,
                      NumCommits = 0, DiffCmd = ''''\<rparr>)
     else
     andThen (getCommits w base branch) (\<lambda>branchCommits.
     if length branchCommits = 0 then
       abort (Panic ''branchCommits is empty, but if base == branchSha check didnt catch this'')
     else
     andThen (getCommitDiff w (branchCommits ! 0)) (\<lambda>branchDiff.
     andThen (if length branchCommits > 1 then getGitDiff w base branch else succeed '''')
       (\<lambda>combinedDiff.
     andThen (getCommits w base currentBranch) (\<lambda>commits.
     andThen (findMerged_loop w branchDiff combinedDiff commits (0, None, ''''))
       (\<lambda>(highestSubjectScore, highestDiff, highestCombinedDiff).
     case highestDiff of
       None \<Rightarrow> succeed None
     | Some highest \<Rightarrow>
         if highestCombinedDiff = '''' then
           (let diffScore = JaroWinklerDistance w (Diff branchDiff) (Diff highest) in
            if 1 \<noteq> length branchCommits then abort (Panic ''expected single commit'')
            else succeed (Some
              \<lparr>Branch = branch, MergedSha = Sha branchDiff, Merged = False,
               SubjectScore = highestSubjectScore, DiffScore = diffScore,
               DiffSize = length (Diff branchDiff), NumCommits = 1,
               DiffCmd = ''meld <(git show '' @ branch @ '') <(git show ''
                           @ Sha highest @ '')''\<rparr>))
         else
           andThen (getGitDiff w (Sha highest @ ''^'') (Sha highest)) (\<lambda>trunkDiff.
           let diffScore = JaroWinklerDistance w trunkDiff highestCombinedDiff in
           succeed (Some
             \<lparr>Branch = branch, MergedSha = Sha branchDiff, Merged = False,
              SubjectScore = highestSubjectScore, DiffScore = diffScore,
              DiffSize = length trunkDiff, NumCommits = length branchCommits,
              DiffCmd = ''meld <(git --no-pager diff '' @ base @ ''..'' @ branch
                          @ '') <(git --no-pager diff '' @ Sha highest @ ''^'' @ ''..''
                          @ Sha highest @ '')''\<rparr>)))))))))"

section \<open>The report and action driver\<close>

text \<open>
  \<^verbatim>\<open>deleteBranch\<close> runs its command with \<^verbatim>\<open>cmd.Run()\<close>, which fails exactly when
  the command does; the model reads that from \<open>Output\<close> and drops the output.
\<close>

definition deleteBranch :: "world \<Rightarrow> string \<Rightarrow> unit prog" where
  "deleteBranch w branchName =
     andThen (print (Stdout ''deleting branch %s\<newline>'' [S branchName])) (\<lambda>_. (\<lambda>s.
       let args = [''git'', ''branch'', ''-D'', branchName] in
       (case Output w args of
          Inl err \<Rightarrow> (Inl (Error err), s\<lparr>calls := calls s @ [args]\<rparr>)
        | Inr out \<Rightarrow> (Inr (), s\<lparr>calls := calls s @ [args]\<rparr>))))"

definition die :: "string \<Rightarrow> arg list \<Rightarrow> 'a prog" where
  "die msg args = andThen (print (Stderr msg args)) (\<lambda>_. abort (Exit 1))"

text \<open>
  \<^verbatim>\<open>deleteBranch\<close> as \<^verbatim>\<open>main\<close> calls it: a failure is fatal.
\<close>

definition deleteOrDie :: "world \<Rightarrow> string \<Rightarrow> unit prog" where
  "deleteOrDie w branch s =
     (case deleteBranch w branch s of
        (Inl (Error err), s') \<Rightarrow>
          die ''failed to delete branch %s: %v'' [S branch, S err] s'
      | r \<Rightarrow> r)"

text \<open>
  The body of the loop of \<^verbatim>\<open>main\<close> for one branch. A \<^verbatim>\<open>continue\<close> is the
  return of \<open>()\<close>; a panic of \<^verbatim>\<open>findMerged\<close> ends the program.
\<close>

definition main_body :: "world \<Rightarrow> opts \<Rightarrow> string \<Rightarrow> string \<Rightarrow> unit prog" where
  "main_body w progOpts currentBranch branch s =
     (if branch = currentBranch then (Inr (), s)
      else (case findMerged w currentBranch branch s of
         (Inl (Error err), s') \<Rightarrow>
           print (Stderr ''ignoring %s due to: %s\<newline>'' [S branch, S err]) s'
       | (Inl e, s') \<Rightarrow> (Inl e, s')
       | (Inr None, s') \<Rightarrow> (Inr (), s')
       | (Inr (Some potentialMerged), s') \<Rightarrow>
           (if Merged potentialMerged then
              andThen (print (Stdout ''%s was cleanly merged under %s\<newline>''
                               [S branch, S (MergedSha potentialMerged)])) (\<lambda>_.
              andThen (deleteOrDie w branch) (\<lambda>_.
              print (Stdout ''\<newline>'' []))) s'
            else if SubjectScore potentialMerged > MinSubjectScore progOpts
                    \<and> DiffScore potentialMerged > MinDiffScore progOpts then
              (let perfectDiffMatch =
                     (DiffScore potentialMerged = 1 \<and> DiffSize potentialMerged > 10) in
               if perfectDiffMatch then
                 andThen (print (Stdout
                   ''%s was merged under %s (subject score: %f; diff score %f)\<newline>''
                   [S branch, S (MergedSha potentialMerged),
                    F (SubjectScore potentialMerged), F (DiffScore potentialMerged)])) (\<lambda>_.
                 andThen (deleteOrDie w branch) (\<lambda>_.
                 print (Stdout ''\<newline>'' []))) s'
               else
                 andThen (print (Stdout
                   ''%s was **potentially** merged under %s (subject score: %f; diff score %f)\<newline>''
                   [S branch, S (MergedSha potentialMerged),
                    F (SubjectScore potentialMerged), F (DiffScore potentialMerged)])) (\<lambda>_.
                 andThen (if NumCommits potentialMerged > 1 then
                     print (Stdout
                       ''WARNING: %s contains %d commits, comparing combined diffs instead (and ommitting commit message)\<newline>''
                       [S branch, D (NumCommits potentialMerged)])
                   else succeed ()) (\<lambda>_.
                 andThen (print (Stdout ''%s\<newline>'' [S (DiffCmd potentialMerged)])) (\<lambda>_.
                 andThen (print (Stdout ''git branch -D %s\<newline>'' [S branch])) (\<lambda>_.
                 print (Stdout ''\<newline>'' []))))) s')
            else (Inr (), s'))))"

fun main_loop :: "world \<Rightarrow> opts \<Rightarrow> string \<Rightarrow> string list \<Rightarrow> unit prog" where
  "main_loop w progOpts currentBranch [] s = (Inr (), s)"
| "main_loop w progOpts currentBranch (branch # branches) s =
     (case main_body w progOpts currentBranch branch s of
        (Inl e, s') \<Rightarrow> (Inl e, s')
      | (Inr _, s') \<Rightarrow> main_loop w progOpts currentBranch branches s')"

text \<open>
  \<^verbatim>\<open>main\<close> after the command line is parsed into \<open>progOpts\<close>.
\<close>

definition main :: "world \<Rightarrow> opts \<Rightarrow> unit prog" where
  "main w progOpts s =
     (case getBranches w s of
        (Inl (Error err), s1) \<Rightarrow> die ''failed to get branches: %v\<newline>'' [S err] s1
      | (Inl e, s1) \<Rightarrow> (Inl e, s1)
      | (Inr branches, s1) \<Rightarrow>
          (case getCurrentBranch w s1 of
             (Inl (Error err), s2) \<Rightarrow>
               die ''failed to get current branch: %v\<newline>'' [S err] s2
           | (Inl e, s2) \<Rightarrow> (Inl e, s2)
           | (Inr currentBranch, s2) \<Rightarrow>
               if currentBranch \<in> set [''main'', ''master'', ''trunk'']
               then main_loop w progOpts currentBranch branches s2
               else die ''current branch is %s; expected main, master, or trunk''
                      [S currentBranch] s2))"

section \<open>Invariants of a run\<close>

text \<open>
  The two command lines that \<^verbatim>\<open>getCommitDiff\<close> runs for a commit, through
  \<^verbatim>\<open>getCommitDiffOnly\<close> and \<^verbatim>\<open>getCommitSubject\<close>.
\<close>

definition showCmd :: "string \<Rightarrow> string list" where
  "showCmd commit = [''git'', ''--no-pager'', ''show'', commit]"

definition subjectCmd :: "string \<Rightarrow> string list" where
  "subjectCmd commit =
     [''git'', ''--no-pager'', ''show'', ''--format=format:%s'', ''-s'', commit]"

text \<open>
  Every entry of the cache is what \<^verbatim>\<open>getCommitDiff\<close> computes for its key in this
  world.
\<close>

definition cache_ok :: "world \<Rightarrow> state \<Rightarrow> bool" where
  "cache_ok w s \<longleftrightarrow>
     (\<forall>c cd. CommitDiffCache s c = Some cd \<longrightarrow> result (getCommitDiff w c) = Inr cd)"

text \<open>
  A program whose returned value does not depend on the state it starts in, as long as the
  cache is consistent with the world, and which keeps the cache so.
\<close>

definition stable :: "world \<Rightarrow> 'a prog \<Rightarrow> bool" where
  "stable w m \<longleftrightarrow>
     (\<forall>s. cache_ok w s \<longrightarrow> fst (m s) = result m \<and> cache_ok w (snd (m s)))"

text \<open>A program that keeps a property of the state.\<close>

definition preserves :: "(state \<Rightarrow> bool) \<Rightarrow> 'a prog \<Rightarrow> bool" where
  "preserves P m \<longleftrightarrow> (\<forall>s. P s \<longrightarrow> P (snd (m s)))"

text \<open>The command lines of that shape.\<close>

definition fingerprintCmd :: "string list \<Rightarrow> bool" where
  "fingerprintCmd args \<longleftrightarrow> (\<exists>c. args = showCmd c \<or> args = subjectCmd c)"

text \<open>
  The two queries of a commit have been run exactly once when the commit is in the cache,
  and not at all when it is not in the cache but can be fingerprinted.
\<close>

definition queried_once :: "world \<Rightarrow> state \<Rightarrow> bool" where
  "queried_once w s \<longleftrightarrow>
     (\<forall>c. (CommitDiffCache s c \<noteq> None \<longrightarrow>
             count_list (calls s) (showCmd c) = 1 \<and> count_list (calls s) (subjectCmd c) = 1)
        \<and> (CommitDiffCache s c = None \<longrightarrow> (\<exists>cd. result (getCommitDiff w c) = Inr cd) \<longrightarrow>
             count_list (calls s) (showCmd c) = 0 \<and> count_list (calls s) (subjectCmd c) = 0))"

text \<open>
  The states of one run of the program. A run starts in the initial state, and the state
  changes only when the program runs a git query, looks a commit up through
  \<^verbatim>\<open>getCommitDiff\<close>, prints a line or deletes a branch. The commit-show and the
  commit-subject query are run by \<^verbatim>\<open>getCommitDiff\<close> alone, so the rule for queries
  leaves them to the rule for lookups. The states inside \<^verbatim>\<open>findMerged\<close>, between
  its queries and its lookups, are among these states, and so are the states before and
  after every call of \<^verbatim>\<open>findMerged\<close> and of \<^verbatim>\<open>main\<close>.
\<close>

inductive reachable :: "world \<Rightarrow> state \<Rightarrow> bool" for w :: world where
  start: "reachable w initial"
| query: "reachable w s \<Longrightarrow> \<not> fingerprintCmd args
          \<Longrightarrow> reachable w (snd (runCommandTrimmedOutput w args s))"
| lookup: "reachable w s \<Longrightarrow> reachable w (snd (getCommitDiff w commit s))"
| printing: "reachable w s \<Longrightarrow> reachable w (snd (print l s))"
| deletion: "reachable w s \<Longrightarrow> reachable w (snd (deleteBranch w branchName s))"

section \<open>An example repository\<close>

text \<open>
  A repository with the trunk \<^verbatim>\<open>main\<close> and six branches, given by the output of
  every command the program runs on it (any other command fails):
  \<^item> \<^verbatim>\<open>merged\<close>, whose tip is the merge base \<^verbatim>\<open>a0\<close>;
  \<^item> \<^verbatim>\<open>rebased\<close>, one commit \<^verbatim>\<open>r1\<close> with the subject and the change of the trunk
    commit \<^verbatim>\<open>m1\<close>, under other blob hashes;
  \<^item> \<^verbatim>\<open>squashed\<close>, two commits \<^verbatim>\<open>s2\<close> (the later one) and \<^verbatim>\<open>s1\<close>, whose
    combined change is the change of the trunk commit \<^verbatim>\<open>m2\<close>, under other blob hashes;
  \<^item> \<^verbatim>\<open>emptied\<close>, two commits \<^verbatim>\<open>e2\<close> and \<^verbatim>\<open>e1\<close> that cancel each other;
  \<^item> \<^verbatim>\<open>unrelated\<close>, one commit \<^verbatim>\<open>u1\<close> whose subject shares no byte with a
    subject of the trunk;
  \<^item> \<^verbatim>\<open>tiny\<close>, forked at \<^verbatim>\<open>b0\<close>, one commit \<^verbatim>\<open>t1\<close> without a diff, with the
    subject of the trunk commit \<^verbatim>\<open>m3\<close>, which has no diff either.

  \<open>exampleScore\<close> stands in for the library's Jaro-Winkler score in this repository. It
  has the two values of that score the examples rest on, 1 for equal strings and 0 for
  strings without a common byte, and lies strictly between them otherwise.
\<close>

definition exampleScore :: "string \<Rightarrow> string \<Rightarrow> real" where
  "exampleScore a b =
     (if a = b then 1 else if list_all (\<lambda>c. c \<notin> set b) a then 0 else 1 / 2)"

definition exampleOutputs :: "(string list \<times> string) list" where
  "exampleOutputs =
    [([''git'', ''merge-base'', ''main'', ''merged''], ''a0\<newline>''),
     ([''git'', ''rev-parse'', ''merged''], ''a0\<newline>''),
     ([''git'', ''merge-base'', ''main'', ''rebased''], ''a0\<newline>''),
     ([''git'', ''rev-parse'', ''rebased''], ''r1\<newline>''),
     ([''git'', ''log'', ''--format=format:%H'', ''a0..rebased''], ''r1''),
     ([''git'', ''merge-base'', ''main'', ''squashed''], ''a0\<newline>''),
     ([''git'', ''rev-parse'', ''squashed''], ''s2\<newline>''),
     ([''git'', ''log'', ''--format=format:%H'', ''a0..squashed''], ''s2\<newline>s1''),
     ([''git'', ''--no-pager'', ''diff'', ''a0..squashed''],
        ''index 11111111..22222222 100644\<newline>+new\<newline>''),
     ([''git'', ''merge-base'', ''main'', ''emptied''], ''a0\<newline>''),
     ([''git'', ''rev-parse'', ''emptied''], ''e2\<newline>''),
     ([''git'', ''log'', ''--format=format:%H'', ''a0..emptied''], ''e2\<newline>e1''),
     ([''git'', ''--no-pager'', ''diff'', ''a0..emptied''], ''''),
     ([''git'', ''merge-base'', ''main'', ''unrelated''], ''a0\<newline>''),
     ([''git'', ''rev-parse'', ''unrelated''], ''u1\<newline>''),
     ([''git'', ''log'', ''--format=format:%H'', ''a0..unrelated''], ''u1''),
     ([''git'', ''log'', ''--format=format:%H'', ''a0..main''], ''m2\<newline>m1''),
     ([''git'', ''--no-pager'', ''diff'', ''m2^..m2''],
        ''index 33333333..44444444 100644\<newline>+new\<newline>''),
     ([''git'', ''--no-pager'', ''show'', ''m1''], ''commit m1\<newline>diff --git a b\<newline>index 55555555..66666666 100644\<newline>+x''),
     ([''git'', ''--no-pager'', ''show'', ''--format=format:%s'', ''-s'', ''m1''], ''fix bug''),
     ([''git'', ''--no-pager'', ''show'', ''m2''], ''commit m2\<newline>diff --git a b\<newline>index 33333333..44444444 100644\<newline>+new''),
     ([''git'', ''--no-pager'', ''show'', ''--format=format:%s'', ''-s'', ''m2''], ''add it''),
     ([''git'', ''--no-pager'', ''show'', ''r1''], ''commit r1\<newline>diff --git a b\<newline>index 77777777..88888888 100644\<newline>+x''),
     ([''git'', ''--no-pager'', ''show'', ''--format=format:%s'', ''-s'', ''r1''], ''fix bug''),
     ([''git'', ''--no-pager'', ''show'', ''s2''], ''commit s2''),
     ([''git'', ''--no-pager'', ''show'', ''--format=format:%s'', ''-s'', ''s2''], ''add it''),
     ([''git'', ''--no-pager'', ''show'', ''e2''], ''commit e2''),
     ([''git'', ''--no-pager'', ''show'', ''--format=format:%s'', ''-s'', ''e2''], ''fix bug''),
     ([''git'', ''--no-pager'', ''show'', ''u1''], ''commit u1''),
     ([''git'', ''--no-pager'', ''show'', ''--format=format:%s'', ''-s'', ''u1''], ''XYZ''),
     ([''git'', ''--no-pager'', ''show'', ''s1''], ''commit s1''),
     ([''git'', ''--no-pager'', ''show'', ''--format=format:%s'', ''-s'', ''s1''], ''wip''),
     ([''git'', ''merge-base'', ''main'', ''tiny''], ''b0\<newline>''),
     ([''git'', ''rev-parse'', ''tiny''], ''t1\<newline>''),
     ([''git'', ''log'', ''--format=format:%H'', ''b0..tiny''], ''t1''),
     ([''git'', ''log'', ''--format=format:%H'', ''b0..main''], ''m3''),
     ([''git'', ''--no-pager'', ''show'', ''t1''], ''commit t1''),
     ([''git'', ''--no-pager'', ''show'', ''--format=format:%s'', ''-s'', ''t1''], ''bump''),
     ([''git'', ''--no-pager'', ''show'', ''m3''], ''commit m3''),
     ([''git'', ''--no-pager'', ''show'', ''--format=format:%s'', ''-s'', ''m3''], ''bump'')]"

text \<open>The commit times of the two commits of \<^verbatim>\<open>squashed\<close>.\<close>

definition exampleTime :: "string \<Rightarrow> nat" where
  "exampleTime commit = (if commit = ''s2'' then 2 else if commit = ''s1'' then 1 else 0)"

text \<open>The options after \<^verbatim>\<open>--perfect\<close> alone: the thresholds keep their default 0.9.\<close>

definition exampleOpts :: opts where
  "exampleOpts = \<lparr>Verbose = False, Version = False, Perfect = True,
                   MinSubjectScore = 9 / 10, MinDiffScore = 9 / 10\<rparr>"

definition exampleWorld :: world where
  "exampleWorld =
     \<lparr>Output = (\<lambda>args. case map_of exampleOutputs args of
                          None \<Rightarrow> Inl ''exit status 128''
                        | Some out \<Rightarrow> Inr out),
      JaroWinklerDistance = exampleScore\<rparr>"

text \<open>The fingerprint of a commit of the example.\<close>

definition exampleFingerprint :: "string \<Rightarrow> CommitDiff" where
  "exampleFingerprint commit =
     (case result (getCommitDiff exampleWorld commit) of
        Inr commitDiff \<Rightarrow> commitDiff
      | Inl _ \<Rightarrow> \<lparr>Sha = commit, Subject = '''', Diff = ''''\<rparr>)"

section \<open>Properties of the normalizer\<close>

lemma Split_not_Nil: "Split sep s \<noteq> []"
  by (induction s) (auto split: list.splits)

lemma Split_snoc_sep: "Split sep (s @ [sep]) = Split sep s @ [[]]"
  using Split_not_Nil [of sep]
  by (induction s) (auto split: list.splits)

lemma Split_lines: "l \<in> set (Split sep s) \<Longrightarrow> sep \<notin> set l"
  using Split_not_Nil [of sep]
  by (induction s arbitrary: l) (auto split: if_splits list.splits)

lemma Split_Join:
  "ls \<noteq> [] \<Longrightarrow> \<forall>l \<in> set ls. sep \<notin> set l \<Longrightarrow> Split sep (Join ls sep) = ls"
proof (induction ls sep rule: Join.induct)
  case (1 sep)
  then show ?case by simp
next
  case (2 l sep)
  then show ?case by (induction l) auto
next
  case (3 l v va sep)
  then have rest: "Split sep (Join (v # va) sep) = v # va" by simp
  from 3 have "sep \<notin> set l" by simp
  then show ?case using rest by (induction l) auto
qed

lemma Join_snoc_empty: "ls \<noteq> [] \<Longrightarrow> Join (ls @ [[]]) sep = Join ls sep @ [sep]"
  by (induction ls sep rule: Join.induct) auto

lemmas line_defs = normalizeLine_def indexRegxp_def indexRegxpNewFile_def
  indexRegxpDeleteFile_def changeLocation_def hexLower_def decDigit_def

lemma normalizeLine_Nil: "normalizeLine [] = []"
  by (simp add: line_defs)

lemma hexLower_z: "\<not> hexLower CHR ''z''"
  by (simp add: hexLower_def)

lemma indexRegxp_cases:
  "indexRegxp l = l \<or> (\<exists>m. indexRegxp l = ''index zzzzzzzz..zzzzzzzz '' @ m)"
  by (simp add: indexRegxp_def Let_def)

lemma indexRegxpNewFile_cases:
  "indexRegxpNewFile l = l \<or> indexRegxpNewFile l = ''index 00000000..zzzzzzzz''"
  by (simp add: indexRegxpNewFile_def)

lemma indexRegxpDeleteFile_cases:
  "indexRegxpDeleteFile l = l \<or> indexRegxpDeleteFile l = ''index zzzzzzzz..00000000''"
  by (simp add: indexRegxpDeleteFile_def Let_def)

lemma changeLocation_cases:
  "changeLocation l = l \<or> (\<exists>r. changeLocation l = ''@@ ... @@'' @ r)"
  by (simp add: changeLocation_def Let_def)

lemma after_modified:
  "changeLocation (indexRegxpDeleteFile (indexRegxpNewFile (''index zzzzzzzz..zzzzzzzz '' @ m)))
     = ''index zzzzzzzz..zzzzzzzz '' @ m"
  by (simp add: indexRegxpNewFile_def indexRegxpDeleteFile_def changeLocation_def hexLower_z)

lemma after_new:
  "changeLocation (indexRegxpDeleteFile ''index 00000000..zzzzzzzz'') = ''index zzzzzzzz..00000000''"
  by (simp add: indexRegxpDeleteFile_def changeLocation_def hexLower_def)

lemma after_deleted:
  "changeLocation ''index zzzzzzzz..00000000'' = ''index zzzzzzzz..00000000''"
  by (simp add: changeLocation_def)

lemma normalizeLine_cases:
  "normalizeLine l = l \<or> (\<exists>m. normalizeLine l = ''index zzzzzzzz..zzzzzzzz '' @ m)
   \<or> normalizeLine l = ''index zzzzzzzz..00000000''
   \<or> (\<exists>r. normalizeLine l = ''@@ ... @@'' @ r)"
  unfolding normalizeLine_def
  using indexRegxp_cases [of l] indexRegxpNewFile_cases [of l]
    indexRegxpDeleteFile_cases [of l] changeLocation_cases [of l]
    after_modified after_new after_deleted
  by metis

lemma fix_modified:
  "normalizeLine (''index zzzzzzzz..zzzzzzzz '' @ m) = ''index zzzzzzzz..zzzzzzzz '' @ m"
  using after_modified [of m] by (simp add: normalizeLine_def indexRegxp_def hexLower_z)

lemma fix_deleted: "normalizeLine ''index zzzzzzzz..00000000'' = ''index zzzzzzzz..00000000''"
  by (simp add: line_defs)

lemma fix_hunk: "normalizeLine (''@@ ... @@'' @ r) = ''@@ ... @@'' @ r"
  by (simp add: normalizeLine_def indexRegxp_def indexRegxpNewFile_def indexRegxpDeleteFile_def changeLocation_def)

lemma normalizeLine_idem: "normalizeLine (normalizeLine l) = normalizeLine l"
  using normalizeLine_cases [of l] fix_modified fix_deleted fix_hunk by metis

lemma indexRegxp_NL: "NL \<notin> set l \<Longrightarrow> NL \<notin> set (indexRegxp l)"
  by (auto simp: indexRegxp_def Let_def NL_def dest: in_set_dropD)

lemma indexRegxpNewFile_NL: "NL \<notin> set l \<Longrightarrow> NL \<notin> set (indexRegxpNewFile l)"
  by (auto simp: indexRegxpNewFile_def NL_def)

lemma indexRegxpDeleteFile_NL: "NL \<notin> set l \<Longrightarrow> NL \<notin> set (indexRegxpDeleteFile l)"
  by (auto simp: indexRegxpDeleteFile_def Let_def NL_def)

lemma changeLocation_NL: "NL \<notin> set l \<Longrightarrow> NL \<notin> set (changeLocation l)"
  by (auto simp: changeLocation_def Let_def NL_def dest!: in_set_dropD set_dropWhileD)

lemma normalizeLine_NL: "NL \<notin> set l \<Longrightarrow> NL \<notin> set (normalizeLine l)"
  unfolding normalizeLine_def
  by (intro changeLocation_NL indexRegxpDeleteFile_NL indexRegxpNewFile_NL indexRegxp_NL)


text \<open>
  Claim C6 (the normalizer is idempotent) fails on the code: every call appends one
  newline after the joined lines, so a second call returns a longer string. Already
  the empty diff shows it: it normalizes to one newline, and that to two.
\<close>

theorem removeGitShaFromGitDiff_not_idempotent:
  "\<not> (\<forall>d. removeGitShaFromGitDiff (removeGitShaFromGitDiff d) = removeGitShaFromGitDiff d)"
proof
  assume "\<forall>d. removeGitShaFromGitDiff (removeGitShaFromGitDiff d) = removeGitShaFromGitDiff d"
  then have "removeGitShaFromGitDiff (removeGitShaFromGitDiff []) = removeGitShaFromGitDiff []"
    by blast
  then show False
    by (simp add: removeGitShaFromGitDiff_def normalizeLine_Nil NL_def)
qed

text \<open>
  Claim C6 as amended: normalizing twice gives the once-normalized text followed by one
  more newline. The rewriting of the lines themselves is idempotent; the second call
  only adds the newline that every call adds.
\<close>

theorem removeGitShaFromGitDiff_twice:
  "removeGitShaFromGitDiff (removeGitShaFromGitDiff d) = removeGitShaFromGitDiff d @ [NL]"
proof -
  let ?ls = "map normalizeLine (Split NL d)"
  have ne: "?ls \<noteq> []" by (simp add: Split_not_Nil)
  have "\<forall>l \<in> set ?ls. NL \<notin> set l"
    using Split_lines normalizeLine_NL by fastforce
  with ne have "Split NL (Join ?ls NL) = ?ls" by (rule Split_Join)
  then have "Split NL (removeGitShaFromGitDiff d) = ?ls @ [[]]"
    by (simp add: removeGitShaFromGitDiff_def Split_snoc_sep)
  then have "map normalizeLine (Split NL (removeGitShaFromGitDiff d)) = ?ls @ [[]]"
    by (simp add: normalizeLine_idem normalizeLine_Nil)
  then have "removeGitShaFromGitDiff (removeGitShaFromGitDiff d) = Join (?ls @ [[]]) NL @ [NL]"
    by (simp add: removeGitShaFromGitDiff_def [of "removeGitShaFromGitDiff d"])
  also have "\<dots> = (Join ?ls NL @ [NL]) @ [NL]" using ne by (simp add: Join_snoc_empty)
  finally show ?thesis by (simp add: removeGitShaFromGitDiff_def)
qed

text \<open>
  Claim C7 (a new-file index line and a deleted-file index line stay distinguishable)
  fails on the code. The new-file line is first rewritten to
  \<^verbatim>\<open>index 00000000..zzzzzzzz\<close>; the deleted-file expression, which accepts any eight
  hexadecimal digits as the source hash and anything as the destination, then matches
  that result and rewrites it to the deleted-file placeholder. Both lines end as
  \<^verbatim>\<open>index zzzzzzzz..00000000\<close>.
\<close>

theorem removeGitShaFromGitDiff_new_file_as_deleted:
  "removeGitShaFromGitDiff ''index 00000000..eb2f469c'' = ''index zzzzzzzz..00000000'' @ [NL]
   \<and> removeGitShaFromGitDiff ''index edfb5027..00000000'' = ''index zzzzzzzz..00000000'' @ [NL]"
  by (simp add: removeGitShaFromGitDiff_def NL_def line_defs)

section \<open>How a call depends on the state\<close>

lemma cache_ok_initial: "cache_ok w initial"
  by (simp add: cache_ok_def initial_def)

lemma stableD:
  "stable w m \<Longrightarrow> cache_ok w s \<Longrightarrow> \<exists>s'. m s = (result m, s') \<and> cache_ok w s'"
  unfolding stable_def by (metis prod.collapse)

lemma stable_succeed: "stable w (succeed x)"
  by (simp add: stable_def succeed_def result_def)

lemma stable_abort: "stable w (abort e)"
  by (simp add: stable_def abort_def result_def)

lemma andThen_run:
  assumes "stable w m" and "\<And>x. result m = Inr x \<Longrightarrow> stable w (f x)" and "cache_ok w s"
  shows "\<exists>s'. andThen m f s = ((case result m of Inl e \<Rightarrow> Inl e | Inr x \<Rightarrow> result (f x)), s')
             \<and> cache_ok w s'"
proof -
  obtain s1 where m: "m s = (result m, s1)" and ok1: "cache_ok w s1"
    using stableD [OF assms(1,3)] by blast
  show ?thesis
  proof (cases "result m")
    case (Inl e)
    with m ok1 show ?thesis by (simp add: andThen_def)
  next
    case (Inr x)
    then obtain s2 where "f x s1 = (result (f x), s2)" and "cache_ok w s2"
      using stableD [OF assms(2) ok1] by blast
    with m Inr show ?thesis by (simp add: andThen_def)
  qed
qed

lemma result_andThen:
  assumes "stable w m" and "\<And>x. result m = Inr x \<Longrightarrow> stable w (f x)"
  shows "result (andThen m f) = (case result m of Inl e \<Rightarrow> Inl e | Inr x \<Rightarrow> result (f x))"
proof -
  have "\<exists>s'. andThen m f initial
          = ((case result m of Inl e \<Rightarrow> Inl e | Inr x \<Rightarrow> result (f x)), s') \<and> cache_ok w s'"
    by (rule andThen_run) (use assms cache_ok_initial in auto)
  then show ?thesis by (auto simp: result_def [of "andThen m f"])
qed

lemma stable_andThen:
  assumes "stable w m" and "\<And>x. result m = Inr x \<Longrightarrow> stable w (f x)"
  shows "stable w (andThen m f)"
  unfolding stable_def
proof (intro allI impI)
  fix s assume ok: "cache_ok w s"
  have "\<exists>s'. andThen m f s
          = ((case result m of Inl e \<Rightarrow> Inl e | Inr x \<Rightarrow> result (f x)), s') \<and> cache_ok w s'"
    by (rule andThen_run) (use assms ok in auto)
  moreover have "result (andThen m f)
      = (case result m of Inl e \<Rightarrow> Inl e | Inr x \<Rightarrow> result (f x))"
    by (rule result_andThen) (use assms in auto)
  ultimately show "fst (andThen m f s) = result (andThen m f) \<and> cache_ok w (snd (andThen m f s))"
    by auto
qed

lemma cache_ok_calls [simp]: "cache_ok w (s\<lparr>calls := cs\<rparr>) = cache_ok w s"
  by (simp add: cache_ok_def)

lemma cache_ok_printed [simp]: "cache_ok w (s\<lparr>printed := ls\<rparr>) = cache_ok w s"
  by (simp add: cache_ok_def)

lemma stable_runCommandTrimmedOutput: "stable w (runCommandTrimmedOutput w args)"
  by (simp add: stable_def runCommandTrimmedOutput_def result_def split: sum.splits)

lemma stable_runCommandSplitLines: "stable w (runCommandSplitLines w args)"
  unfolding runCommandSplitLines_def
  by (intro stable_andThen stable_runCommandTrimmedOutput stable_succeed)

lemma stable_getGitMergeBase: "stable w (getGitMergeBase w a b)"
  unfolding getGitMergeBase_def by (rule stable_runCommandTrimmedOutput)

lemma stable_getGitRevParse: "stable w (getGitRevParse w b)"
  unfolding getGitRevParse_def by (rule stable_runCommandTrimmedOutput)

lemma stable_getGitDiff: "stable w (getGitDiff w a b)"
  unfolding getGitDiff_def by (rule stable_runCommandTrimmedOutput)

lemma stable_getCommitSubject: "stable w (getCommitSubject w c)"
  unfolding getCommitSubject_def by (rule stable_runCommandTrimmedOutput)

lemma stable_getCommitDiffOnly: "stable w (getCommitDiffOnly w c)"
  unfolding getCommitDiffOnly_def Let_def
  by (intro stable_andThen stable_runCommandTrimmedOutput) (simp add: stable_succeed)

lemma stable_getCommits: "stable w (getCommits w a b)"
  unfolding getCommits_def
  by (intro stable_andThen stable_runCommandSplitLines stable_succeed)

lemma getCommitDiff_hit:
  "CommitDiffCache s c = Some cd \<Longrightarrow> getCommitDiff w c s = (Inr cd, s)"
  by (simp add: getCommitDiff_def)

lemma getCommitDiff_miss:
  "CommitDiffCache s c = None \<Longrightarrow>
   getCommitDiff w c s =
     (case Output w (showCmd c) of
        Inl e \<Rightarrow> (Inl (Error e), s\<lparr>calls := calls s @ [showCmd c]\<rparr>)
      | Inr contents \<Rightarrow>
          (case Output w (subjectCmd c) of
             Inl e \<Rightarrow> (Inl (Error e), s\<lparr>calls := calls s @ [showCmd c, subjectCmd c]\<rparr>)
           | Inr subject \<Rightarrow>
               (case result (getCommitDiff w c) of
                  Inl e \<Rightarrow> (Inl e, s)
                | Inr cd \<Rightarrow>
                    (Inr cd, s\<lparr>calls := calls s @ [showCmd c, subjectCmd c],
                               CommitDiffCache := (CommitDiffCache s)(c \<mapsto> cd)\<rparr>))))"
  by (simp add: result_def initial_def getCommitDiff_def getCommitDiffOnly_def
      getCommitSubject_def andThen_def runCommandTrimmedOutput_def succeed_def showCmd_def
      subjectCmd_def Let_def split: sum.splits)

lemma result_getCommitDiff_Inl:
  "Output w (showCmd c) = Inl e \<Longrightarrow> result (getCommitDiff w c) = Inl (Error e)"
  by (simp add: result_def initial_def getCommitDiff_miss)

lemma result_getCommitDiff_Inl2:
  "Output w (showCmd c) = Inr x \<Longrightarrow> Output w (subjectCmd c) = Inl e
   \<Longrightarrow> result (getCommitDiff w c) = Inl (Error e)"
  by (simp add: result_def initial_def getCommitDiff_miss)

lemma result_getCommitDiff_Sha:
  "result (getCommitDiff w c) = Inr cd \<Longrightarrow> Sha cd = c"
  by (auto simp: result_def initial_def getCommitDiff_def getCommitDiffOnly_def
      getCommitSubject_def andThen_def runCommandTrimmedOutput_def succeed_def Let_def
      split: sum.splits if_splits)

lemma stable_getCommitDiff: "stable w (getCommitDiff w c)"
  unfolding stable_def
proof (intro allI impI)
  fix s assume ok: "cache_ok w s"
  show "fst (getCommitDiff w c s) = result (getCommitDiff w c)
        \<and> cache_ok w (snd (getCommitDiff w c s))"
  proof (cases "CommitDiffCache s c")
    case None
    show ?thesis
      using ok unfolding getCommitDiff_miss [OF None]
      by (auto simp: cache_ok_def result_getCommitDiff_Inl result_getCommitDiff_Inl2
          split: sum.splits)
  next
    case (Some cd)
    with ok show ?thesis by (simp add: getCommitDiff_hit cache_ok_def)
  qed
qed

lemma result_succeed [simp]: "result (succeed x) = Inr x"
  by (simp add: result_def succeed_def)

lemma result_abort [simp]: "result (abort e) = Inl e"
  by (simp add: result_def abort_def)

lemma stable_if:
  "(c \<Longrightarrow> stable w a) \<Longrightarrow> (\<not> c \<Longrightarrow> stable w b) \<Longrightarrow> stable w (if c then a else b)"
  by simp

lemma stable_loop: "stable w (findMerged_loop w bd cd cs vars)"
proof (induction cs arbitrary: vars)
  case Nil
  then show ?case by (simp add: stable_def result_def)
next
  case (Cons c cs)
  obtain h hi hcd where vars: "vars = (h, hi, hcd)" by (cases vars) auto
  show ?case unfolding stable_def
  proof (intro allI impI)
    fix s assume ok: "cache_ok w s"
    obtain s1 where s1: "getCommitDiff w c s = (result (getCommitDiff w c), s1)" "cache_ok w s1"
      using stableD [OF stable_getCommitDiff ok] by blast
    obtain s0 where s0: "getCommitDiff w c initial = (result (getCommitDiff w c), s0)"
      "cache_ok w s0"
      using stableD [OF stable_getCommitDiff cache_ok_initial] by blast
    show "fst (findMerged_loop w bd cd (c # cs) vars s) = result (findMerged_loop w bd cd (c # cs) vars)
          \<and> cache_ok w (snd (findMerged_loop w bd cd (c # cs) vars s))"
    proof (cases "result (getCommitDiff w c)")
      case (Inl e)
      with s1 s0 show ?thesis
        unfolding vars
        by (simp add: result_def [of "findMerged_loop w bd cd (c # cs) (h, hi, hcd)"])
    next
      case (Inr f)
      have *: "\<And>v. fst (findMerged_loop w bd cd cs v s1) = fst (findMerged_loop w bd cd cs v s0)
            \<and> cache_ok w (snd (findMerged_loop w bd cd cs v s1))"
        using Cons.IH s1(2) s0(2) unfolding stable_def by metis
      with Inr s1 s0 show ?thesis
        unfolding vars
        by (simp add: result_def [of "findMerged_loop w bd cd (c # cs) (h, hi, hcd)"]
            result_def [of "findMerged_loop w bd cd cs v" for v] Let_def)
    qed
  qed
qed

lemma result_loop_Nil [simp]: "result (findMerged_loop w bd cd [] vars) = Inr vars"
  by (simp add: result_def)

lemma result_loop_Cons:
  "result (findMerged_loop w bd cd (c # cs) (h, hi, hcd)) =
     (case result (getCommitDiff w c) of
        Inl e \<Rightarrow> Inl e
      | Inr f \<Rightarrow>
          if JaroWinklerDistance w (Subject bd) (Subject f) > h
          then result (findMerged_loop w bd cd cs
                 (JaroWinklerDistance w (Subject bd) (Subject f), Some f, cd))
          else result (findMerged_loop w bd cd cs (h, hi, hcd)))"
proof -
  obtain s0 where s0: "getCommitDiff w c initial = (result (getCommitDiff w c), s0)"
    "cache_ok w s0"
    using stableD [OF stable_getCommitDiff cache_ok_initial] by blast
  have *: "\<And>v. fst (findMerged_loop w bd cd cs v s0) = result (findMerged_loop w bd cd cs v)"
    using stable_loop s0(2) unfolding stable_def by blast
  show ?thesis
    using s0(1) *
    by (simp add: result_def [of "findMerged_loop w bd cd (c # cs) (h, hi, hcd)"] Let_def
        split: sum.splits)
qed

lemma loop_best:
  assumes "\<forall>c \<in> set cs. result (getCommitDiff w c) = Inr (fp c)"
  shows "\<exists>h' hi' hcd'.
           result (findMerged_loop w bd cd cs (h, hi, hcd)) = Inr (h', hi', hcd')
           \<and> h \<le> h'
           \<and> (\<forall>c \<in> set cs. JaroWinklerDistance w (Subject bd) (Subject (fp c)) \<le> h')
           \<and> ((h' = h \<and> hi' = hi \<and> hcd' = hcd)
                \<or> (\<exists>c \<in> set cs. hi' = Some (fp c) \<and> hcd' = cd \<and> h < h'
                      \<and> h' = JaroWinklerDistance w (Subject bd) (Subject (fp c))))"
  using assms
proof (induction cs arbitrary: h hi hcd)
  case Nil
  then show ?case by (simp add: result_def)
next
  case (Cons c cs)
  let ?sc = "JaroWinklerDistance w (Subject bd) (Subject (fp c))"
  from Cons.prems have c: "result (getCommitDiff w c) = Inr (fp c)"
    and rest: "\<forall>c \<in> set cs. result (getCommitDiff w c) = Inr (fp c)" by simp_all
  show ?case
  proof (cases "?sc > h")
    case True
    from Cons.IH [OF rest, of ?sc "Some (fp c)" cd]
    obtain h' hi' hcd' where
      r: "result (findMerged_loop w bd cd cs (?sc, Some (fp c), cd)) = Inr (h', hi', hcd')"
      and le: "?sc \<le> h'"
      and all: "\<forall>c \<in> set cs. JaroWinklerDistance w (Subject bd) (Subject (fp c)) \<le> h'"
      and which: "(h' = ?sc \<and> hi' = Some (fp c) \<and> hcd' = cd)
                \<or> (\<exists>c \<in> set cs. hi' = Some (fp c) \<and> hcd' = cd \<and> ?sc < h'
                      \<and> h' = JaroWinklerDistance w (Subject bd) (Subject (fp c)))"
      by blast
    have "result (findMerged_loop w bd cd (c # cs) (h, hi, hcd)) = Inr (h', hi', hcd')"
      using c True r by (simp add: result_loop_Cons)
    moreover have "h \<le> h'" using True le by simp
    moreover have "\<forall>c \<in> set (c # cs). JaroWinklerDistance w (Subject bd) (Subject (fp c)) \<le> h'"
      using all le by simp
    moreover have "\<exists>c' \<in> set (c # cs). hi' = Some (fp c') \<and> hcd' = cd \<and> h < h'
                      \<and> h' = JaroWinklerDistance w (Subject bd) (Subject (fp c'))"
      using which True le by auto
    ultimately show ?thesis by blast
  next
    case False
    from Cons.IH [OF rest, of h hi hcd]
    obtain h' hi' hcd' where
      r: "result (findMerged_loop w bd cd cs (h, hi, hcd)) = Inr (h', hi', hcd')"
      and le: "h \<le> h'"
      and all: "\<forall>c \<in> set cs. JaroWinklerDistance w (Subject bd) (Subject (fp c)) \<le> h'"
      and which: "(h' = h \<and> hi' = hi \<and> hcd' = hcd)
                \<or> (\<exists>c \<in> set cs. hi' = Some (fp c) \<and> hcd' = cd \<and> h < h'
                      \<and> h' = JaroWinklerDistance w (Subject bd) (Subject (fp c)))"
      by blast
    have "result (findMerged_loop w bd cd (c # cs) (h, hi, hcd)) = Inr (h', hi', hcd')"
      using c False r by (simp add: result_loop_Cons)
    moreover have "\<forall>c \<in> set (c # cs). JaroWinklerDistance w (Subject bd) (Subject (fp c)) \<le> h'"
      using all le False by simp
    moreover have "(h' = h \<and> hi' = hi \<and> hcd' = hcd)
                \<or> (\<exists>c' \<in> set (c # cs). hi' = Some (fp c') \<and> hcd' = cd \<and> h < h'
                      \<and> h' = JaroWinklerDistance w (Subject bd) (Subject (fp c')))"
      using which by auto
    ultimately show ?thesis using le by blast
  qed
qed

lemmas stable_intros = stable_andThen stable_succeed stable_abort stable_if
  stable_getGitMergeBase stable_getGitRevParse stable_getGitDiff stable_getCommits
  stable_getCommitDiff stable_loop

lemma stable_findMerged: "stable w (findMerged w currentBranch branch)"
  unfolding findMerged_def Let_def
  by (intro stable_intros) (auto intro!: stable_intros split: option.splits)

lemma result_andThen_all:
  "stable w m \<Longrightarrow> \<forall>x. stable w (f x) \<Longrightarrow>
   result (andThen m f) = (case result m of Inl e \<Rightarrow> Inl e | Inr x \<Rightarrow> result (f x))"
  by (rule result_andThen) auto

lemma stable_andThen_all:
  "stable w m \<Longrightarrow> \<forall>x. stable w (f x) \<Longrightarrow> stable w (andThen m f)"
  by (rule stable_andThen) auto

lemma stable_if_all:
  "stable w a \<Longrightarrow> stable w b \<Longrightarrow> stable w (if c then a else b)"
  by simp

lemma stable_case_option:
  "stable w a \<Longrightarrow> \<forall>x. stable w (f x) \<Longrightarrow> stable w (case v of None \<Rightarrow> a | Some x \<Rightarrow> f x)"
  by (simp split: option.splits)

lemma stable_case_prod3:
  "\<forall>a b c. stable w (f a b c) \<Longrightarrow> stable w (case p of (a, b, c) \<Rightarrow> f a b c)"
  by (simp split: prod.splits)

lemma result_if: "result (if c then a else b) = (if c then result a else result b)"
  by simp

lemma result_case_option:
  "result (case v of None \<Rightarrow> a | Some x \<Rightarrow> f x)
     = (case v of None \<Rightarrow> result a | Some x \<Rightarrow> result (f x))"
  by (simp split: option.splits)

lemma result_case_prod3:
  "result (case p of (a, b, c) \<Rightarrow> f a b c) = (case p of (a, b, c) \<Rightarrow> result (f a b c))"
  by (simp split: prod.splits)

lemma result_findMerged:
  "result (findMerged w currentBranch branch) =
    (case result (getGitMergeBase w currentBranch branch) of Inl e \<Rightarrow> Inl e | Inr base \<Rightarrow>
    (case result (getGitRevParse w branch) of Inl e \<Rightarrow> Inl e | Inr branchSha \<Rightarrow>
     if base = branchSha then
       Inr (Some \<lparr>Branch = branch, MergedSha = base, Merged = True,
                  SubjectScore = 1, DiffScore = 1, DiffSize = 0,
                  NumCommits = 0, DiffCmd = ''''\<rparr>)
     else
    (case result (getCommits w base branch) of Inl e \<Rightarrow> Inl e | Inr branchCommits \<Rightarrow>
     if length branchCommits = 0 then
       Inl (Panic ''branchCommits is empty, but if base == branchSha check didnt catch this'')
     else
    (case result (getCommitDiff w (branchCommits ! 0)) of Inl e \<Rightarrow> Inl e | Inr branchDiff \<Rightarrow>
    (case (if length branchCommits > 1 then result (getGitDiff w base branch) else Inr '''') of
       Inl e \<Rightarrow> Inl e | Inr combinedDiff \<Rightarrow>
    (case result (getCommits w base currentBranch) of Inl e \<Rightarrow> Inl e | Inr commits \<Rightarrow>
    (case result (findMerged_loop w branchDiff combinedDiff commits (0, None, '''')) of
       Inl e \<Rightarrow> Inl e
     | Inr (highestSubjectScore, highestDiff, highestCombinedDiff) \<Rightarrow>
    (case highestDiff of
       None \<Rightarrow> Inr None
     | Some highest \<Rightarrow>
         if highestCombinedDiff = '''' then
           (if 1 \<noteq> length branchCommits then Inl (Panic ''expected single commit'')
            else Inr (Some
              \<lparr>Branch = branch, MergedSha = Sha branchDiff, Merged = False,
               SubjectScore = highestSubjectScore,
               DiffScore = JaroWinklerDistance w (Diff branchDiff) (Diff highest),
               DiffSize = length (Diff branchDiff), NumCommits = 1,
               DiffCmd = ''meld <(git show '' @ branch @ '') <(git show ''
                           @ Sha highest @ '')''\<rparr>))
         else
           (case result (getGitDiff w (Sha highest @ ''^'') (Sha highest)) of
             Inl e \<Rightarrow> Inl e
           | Inr trunkDiff \<Rightarrow>
           Inr (Some
             \<lparr>Branch = branch, MergedSha = Sha branchDiff, Merged = False,
              SubjectScore = highestSubjectScore,
              DiffScore = JaroWinklerDistance w trunkDiff highestCombinedDiff,
              DiffSize = length trunkDiff, NumCommits = length branchCommits,
              DiffCmd = ''meld <(git --no-pager diff '' @ base @ ''..'' @ branch
                          @ '') <(git --no-pager diff '' @ Sha highest @ ''^'' @ ''..''
                          @ Sha highest @ '')''\<rparr>))))))))))"
  unfolding findMerged_def Let_def
  by (simp only: result_andThen_all [where w = w] stable_andThen_all stable_succeed stable_abort
      result_succeed result_abort simp_thms if_True if_False stable_if_all
      stable_getGitMergeBase stable_getGitRevParse stable_getGitDiff stable_getCommits
      stable_getCommitDiff stable_loop stable_case_option stable_case_prod3
      result_if result_case_option result_case_prod3
      cong: if_cong sum.case_cong option.case_cong prod.case_cong)

lemma fst_findMerged:
  "cache_ok w s \<Longrightarrow> fst (findMerged w currentBranch branch s) = result (findMerged w currentBranch branch)"
  using stable_findMerged unfolding stable_def by blast

lemma result_findMerged_fuzzy:
  assumes "result (getGitMergeBase w currentBranch branch) = Inr base"
    and "result (getGitRevParse w branch) = Inr tip" and "base \<noteq> tip"
    and "result (getCommits w base branch) = Inr bcs" and "bcs \<noteq> []"
    and "result (getCommitDiff w (bcs ! 0)) = Inr bd"
    and "(if length bcs > 1 then result (getGitDiff w base branch) else Inr '''') = Inr cd"
    and "result (getCommits w base currentBranch) = Inr cs"
    and "result (findMerged_loop w bd cd cs (0, None, '''')) = Inr (h, hi, hcd)"
  shows "result (findMerged w currentBranch branch) =
     (case hi of
       None \<Rightarrow> Inr None
     | Some highest \<Rightarrow>
         if hcd = '''' then
           (if 1 \<noteq> length bcs then Inl (Panic ''expected single commit'')
            else Inr (Some
              \<lparr>Branch = branch, MergedSha = Sha bd, Merged = False,
               SubjectScore = h,
               DiffScore = JaroWinklerDistance w (Diff bd) (Diff highest),
               DiffSize = length (Diff bd), NumCommits = 1,
               DiffCmd = ''meld <(git show '' @ branch @ '') <(git show ''
                           @ Sha highest @ '')''\<rparr>))
         else
           (case result (getGitDiff w (Sha highest @ ''^'') (Sha highest)) of
             Inl e \<Rightarrow> Inl e
           | Inr trunkDiff \<Rightarrow>
           Inr (Some
             \<lparr>Branch = branch, MergedSha = Sha bd, Merged = False,
              SubjectScore = h,
              DiffScore = JaroWinklerDistance w trunkDiff hcd,
              DiffSize = length trunkDiff, NumCommits = length bcs,
              DiffCmd = ''meld <(git --no-pager diff '' @ base @ ''..'' @ branch
                          @ '') <(git --no-pager diff '' @ Sha highest @ ''^'' @ ''..''
                          @ Sha highest @ '')''\<rparr>)))"
  using assms by (simp add: result_findMerged)

lemma andThen_Inr: "m s = (Inr x, s') \<Longrightarrow> andThen m f s = f x s'"
  by (simp add: andThen_def)

lemma runCommandTrimmedOutput_run:
  "args \<noteq> [] \<Longrightarrow>
   runCommandTrimmedOutput w args s
     = (result (runCommandTrimmedOutput w args), s\<lparr>calls := calls s @ [args]\<rparr>)"
  by (simp add: runCommandTrimmedOutput_def result_def split: sum.splits)

lemma loop_result:
  assumes "result (findMerged_loop w bd cd cs (h0, hi0, hcd0)) = Inr (h, hi, hcd)"
  shows "(h = h0 \<and> hi = hi0 \<and> hcd = hcd0)
         \<or> (\<exists>c \<in> set cs. \<exists>f. result (getCommitDiff w c) = Inr f \<and> hi = Some f \<and> hcd = cd
                \<and> h = JaroWinklerDistance w (Subject bd) (Subject f))"
  using assms
proof (induction cs arbitrary: h0 hi0 hcd0)
  case Nil
  then show ?case by (simp add: result_def)
next
  case (Cons c cs)
  from Cons.prems obtain f where f: "result (getCommitDiff w c) = Inr f"
    unfolding result_loop_Cons by (auto split: sum.splits)
  let ?sc = "JaroWinklerDistance w (Subject bd) (Subject f)"
  show ?case
  proof (cases "?sc > h0")
    case True
    with Cons.prems f
    have "result (findMerged_loop w bd cd cs (?sc, Some f, cd)) = Inr (h, hi, hcd)"
      unfolding result_loop_Cons by simp
    from Cons.IH [OF this] f show ?thesis by auto
  next
    case False
    with Cons.prems f
    have "result (findMerged_loop w bd cd cs (h0, hi0, hcd0)) = Inr (h, hi, hcd)"
      unfolding result_loop_Cons by simp
    from Cons.IH [OF this] show ?thesis by auto
  qed
qed

lemma result_findMerged_cases:
  assumes "result (findMerged w currentBranch branch) = Inr (Some v)" and "\<not> Merged v"
    and "result (getGitMergeBase w currentBranch branch) = Inr base"
    and "result (getCommits w base branch) = Inr bcs"
  shows "bcs \<noteq> [] \<and> (\<exists>bd cd cs h highest hcd.
           result (getCommitDiff w (bcs ! 0)) = Inr bd
           \<and> result (getCommits w base currentBranch) = Inr cs
           \<and> result (findMerged_loop w bd cd cs (0, None, '''')) = Inr (h, Some highest, hcd)
           \<and> MergedSha v = Sha bd \<and> SubjectScore v = h)"
  using assms
  by (auto simp: result_findMerged split: sum.splits if_splits option.splits prod.splits)
     blast+

section \<open>The example repository, evaluated\<close>

lemma result_runCommandTrimmedOutput:
  "result (runCommandTrimmedOutput w args) =
     (if length args = 0 then Inl (Error ''no command given'')
      else (case Output w args of Inl e \<Rightarrow> Inl (Error e) | Inr out \<Rightarrow> Inr (TrimSpace out)))"
  by (simp add: result_def runCommandTrimmedOutput_def split: sum.splits)

lemma result_getCommits:
  "result (getCommits w start end') =
     (case result (runCommandTrimmedOutput w
              [''git'', ''log'', ''--format=format:%H'', start @ ''..'' @ end']) of
        Inl e \<Rightarrow> Inl e
      | Inr out \<Rightarrow> Inr (filter (\<lambda>commit. commit \<noteq> '''') (map TrimSpace (Split NL out))))"
  unfolding getCommits_def runCommandSplitLines_def
  by (simp add: result_andThen_all [where w = w] stable_andThen_all stable_succeed
      stable_runCommandTrimmedOutput split: sum.splits)

lemma result_getCommitDiff:
  "result (getCommitDiff w c) =
     (case Output w [''git'', ''--no-pager'', ''show'', c] of
        Inl e \<Rightarrow> Inl (Error e)
      | Inr contents \<Rightarrow>
          (case Output w [''git'', ''--no-pager'', ''show'', ''--format=format:%s'', ''-s'', c] of
             Inl e \<Rightarrow> Inl (Error e)
           | Inr subject \<Rightarrow>
               Inr \<lparr>Sha = c, Subject = TrimSpace subject,
                     Diff = removeGitShaFromGitDiff
                       (let parts = SplitN2 (TrimSpace contents) (NL # ''diff --git'') in
                        if length parts \<noteq> 2 then '''' else ''diff --git'' @ parts ! 1)\<rparr>))"
  by (simp add: result_def initial_def getCommitDiff_def getCommitDiffOnly_def
      getCommitSubject_def andThen_def runCommandTrimmedOutput_def succeed_def Let_def
      split: sum.splits)

lemmas example_eval = exampleWorld_def exampleOutputs_def exampleScore_def
  result_runCommandTrimmedOutput result_getCommits result_getCommitDiff
  getGitMergeBase_def getGitRevParse_def getGitDiff_def
  TrimSpace_def spaceWidth_def asciiSpace_def unicodeSpace_def NL_def
  removeGitShaFromGitDiff_def normalizeLine_def indexRegxp_def indexRegxpNewFile_def
  indexRegxpDeleteFile_def changeLocation_def hexLower_def decDigit_def Let_def

lemma ex_score: "JaroWinklerDistance exampleWorld a b = exampleScore a b"
  by (simp add: exampleWorld_def)

lemma ex_trunk: "result (getCommits exampleWorld ''a0'' ''main'') = Inr [''m2'', ''m1'']"
  by (simp add: example_eval)

lemma ex_m1: "result (getCommitDiff exampleWorld ''m1'') =
   Inr \<lparr>Sha = ''m1'', Subject = ''fix bug'',
         Diff = ''diff --git a b\<newline>index zzzzzzzz..zzzzzzzz 100644\<newline>+x\<newline>''\<rparr>"
  by (simp add: example_eval)

lemma ex_m2: "result (getCommitDiff exampleWorld ''m2'') =
   Inr \<lparr>Sha = ''m2'', Subject = ''add it'',
         Diff = ''diff --git a b\<newline>index zzzzzzzz..zzzzzzzz 100644\<newline>+new\<newline>''\<rparr>"
  by (simp add: example_eval)

lemma ex_merged:
  "result (getGitMergeBase exampleWorld ''main'' ''merged'') = Inr ''a0''"
  "result (getGitRevParse exampleWorld ''merged'') = Inr ''a0''"
  by (simp_all add: example_eval)

lemma ex_rebased:
  "result (getGitMergeBase exampleWorld ''main'' ''rebased'') = Inr ''a0''"
  "result (getGitRevParse exampleWorld ''rebased'') = Inr ''r1''"
  "result (getCommits exampleWorld ''a0'' ''rebased'') = Inr [''r1'']"
  "result (getCommitDiff exampleWorld ''r1'') =
     Inr \<lparr>Sha = ''r1'', Subject = ''fix bug'',
           Diff = ''diff --git a b\<newline>index zzzzzzzz..zzzzzzzz 100644\<newline>+x\<newline>''\<rparr>"
  by (simp_all add: example_eval)

lemma ex_squashed:
  "result (getGitMergeBase exampleWorld ''main'' ''squashed'') = Inr ''a0''"
  "result (getGitRevParse exampleWorld ''squashed'') = Inr ''s2''"
  "result (getCommits exampleWorld ''a0'' ''squashed'') = Inr [''s2'', ''s1'']"
  "result (getCommitDiff exampleWorld ''s2'') =
     Inr \<lparr>Sha = ''s2'', Subject = ''add it'', Diff = ''\<newline>''\<rparr>"
  "result (getGitDiff exampleWorld ''a0'' ''squashed'')
     = Inr ''index 11111111..22222222 100644\<newline>+new''"
  "result (getGitDiff exampleWorld ''m2^'' ''m2'')
     = Inr ''index 33333333..44444444 100644\<newline>+new''"
  by (simp_all add: example_eval)

lemma ex_emptied:
  "result (getGitMergeBase exampleWorld ''main'' ''emptied'') = Inr ''a0''"
  "result (getGitRevParse exampleWorld ''emptied'') = Inr ''e2''"
  "result (getCommits exampleWorld ''a0'' ''emptied'') = Inr [''e2'', ''e1'']"
  "result (getCommitDiff exampleWorld ''e2'') =
     Inr \<lparr>Sha = ''e2'', Subject = ''fix bug'', Diff = ''\<newline>''\<rparr>"
  "result (getGitDiff exampleWorld ''a0'' ''emptied'') = Inr ''''"
  by (simp_all add: example_eval)


lemmas example_run = result_findMerged result_loop_Cons ex_score exampleScore_def
  ex_trunk ex_m1 ex_m2

lemma ex_findMerged_rebased:
  "result (findMerged exampleWorld ''main'' ''rebased'') =
     Inr (Some \<lparr>Branch = ''rebased'', MergedSha = ''r1'', Merged = False,
          SubjectScore = 1, DiffScore = 1, DiffSize = 50, NumCommits = 1,
          DiffCmd = ''meld <(git show rebased) <(git show m1)''\<rparr>)"
  by (simp add: example_run ex_rebased)

lemma ex_findMerged_squashed:
  "result (findMerged exampleWorld ''main'' ''squashed'') =
     Inr (Some \<lparr>Branch = ''squashed'', MergedSha = ''s2'', Merged = False,
          SubjectScore = 1, DiffScore = 1 / 2, DiffSize = 36, NumCommits = 2,
          DiffCmd = ''meld <(git --no-pager diff a0..squashed) <(git --no-pager diff m2^..m2)''\<rparr>)"
  by (simp add: example_run ex_squashed)

lemma ex_findMerged_emptied:
  "result (findMerged exampleWorld ''main'' ''emptied'') = Inl (Panic ''expected single commit'')"
  by (simp add: example_run ex_emptied)


lemma ex_s1:
  "result (getCommitDiff exampleWorld ''s1'') =
     Inr \<lparr>Sha = ''s1'', Subject = ''wip'', Diff = ''\<newline>''\<rparr>"
  by (simp add: example_eval)

lemma ex_tiny:
  "result (getGitMergeBase exampleWorld ''main'' ''tiny'') = Inr ''b0''"
  "result (getGitRevParse exampleWorld ''tiny'') = Inr ''t1''"
  "result (getCommits exampleWorld ''b0'' ''tiny'') = Inr [''t1'']"
  "result (getCommits exampleWorld ''b0'' ''main'') = Inr [''m3'']"
  "result (getCommitDiff exampleWorld ''t1'') =
     Inr \<lparr>Sha = ''t1'', Subject = ''bump'', Diff = ''\<newline>''\<rparr>"
  "result (getCommitDiff exampleWorld ''m3'') =
     Inr \<lparr>Sha = ''m3'', Subject = ''bump'', Diff = ''\<newline>''\<rparr>"
  by (simp_all add: example_eval)

lemma ex_findMerged_tiny:
  "result (findMerged exampleWorld ''main'' ''tiny'') =
     Inr (Some \<lparr>Branch = ''tiny'', MergedSha = ''t1'', Merged = False,
          SubjectScore = 1, DiffScore = 1, DiffSize = 1, NumCommits = 1,
          DiffCmd = ''meld <(git show tiny) <(git show m3)''\<rparr>)"
  by (simp add: result_findMerged result_loop_Cons ex_score exampleScore_def ex_tiny)

section \<open>Each commit is queried once\<close>

lemma preserves_succeed: "preserves P (succeed x)"
  by (simp add: preserves_def succeed_def)

lemma preserves_abort: "preserves P (abort e)"
  by (simp add: preserves_def abort_def)

lemma preserves_andThen:
  "preserves P m \<Longrightarrow> \<forall>x. preserves P (f x) \<Longrightarrow> preserves P (andThen m f)"
  unfolding preserves_def andThen_def
  by (auto split: prod.splits sum.splits)

lemma preserves_if:
  "preserves P a \<Longrightarrow> preserves P b \<Longrightarrow> preserves P (if c then a else b)"
  by simp

lemma preserves_case_option:
  "preserves P a \<Longrightarrow> \<forall>x. preserves P (f x) \<Longrightarrow> preserves P (case v of None \<Rightarrow> a | Some x \<Rightarrow> f x)"
  by (simp split: option.splits)

lemma preserves_case_prod3:
  "\<forall>a b c. preserves P (f a b c) \<Longrightarrow> preserves P (case p of (a, b, c) \<Rightarrow> f a b c)"
  by (simp split: prod.splits)

lemma queried_once_append:
  assumes "queried_once w s" and "\<not> fingerprintCmd args"
  shows "queried_once w (s\<lparr>calls := calls s @ [args]\<rparr>)"
proof -
  have "count_list (calls s @ [args]) (showCmd c) = count_list (calls s) (showCmd c)"
    "count_list (calls s @ [args]) (subjectCmd c) = count_list (calls s) (subjectCmd c)" for c
    using assms(2) by (auto simp: fingerprintCmd_def)
  with assms(1) show ?thesis by (simp add: queried_once_def)
qed

lemma preserves_runCommandTrimmedOutput:
  "\<not> fingerprintCmd args \<Longrightarrow> preserves (queried_once w) (runCommandTrimmedOutput w args)"
  by (auto simp: preserves_def runCommandTrimmedOutput_def queried_once_append split: sum.splits)

lemma showCmd_inj [simp]: "showCmd c = showCmd c' \<longleftrightarrow> c = c'"
  by (simp add: showCmd_def)

lemma subjectCmd_inj [simp]: "subjectCmd c = subjectCmd c' \<longleftrightarrow> c = c'"
  by (simp add: subjectCmd_def)

lemma showCmd_subjectCmd [simp]: "showCmd c \<noteq> subjectCmd c'" "subjectCmd c' \<noteq> showCmd c"
  by (simp_all add: showCmd_def subjectCmd_def)

lemma preserves_getCommitDiff: "preserves (queried_once w) (getCommitDiff w c)"
  unfolding preserves_def
proof (intro allI impI)
  fix s assume inv: "queried_once w s"
  show "queried_once w (snd (getCommitDiff w c s))"
  proof (cases "CommitDiffCache s c")
    case (Some cd)
    with inv show ?thesis by (simp add: getCommitDiff_hit)
  next
    case None
    have other: "count_list (calls s @ xs) (showCmd c') = count_list (calls s) (showCmd c')"
      "count_list (calls s @ xs) (subjectCmd c') = count_list (calls s) (subjectCmd c')"
      if "c' \<noteq> c" "set xs \<subseteq> {showCmd c, subjectCmd c}" for c' xs
      using that by (induction xs) auto
    show ?thesis
    proof (cases "result (getCommitDiff w c)")
      case (Inl e)
      have "queried_once w (s\<lparr>calls := calls s @ xs\<rparr>)"
        if "set xs \<subseteq> {showCmd c, subjectCmd c}" for xs
        unfolding queried_once_def
      proof (intro allI)
        fix c'
        show "(CommitDiffCache (s\<lparr>calls := calls s @ xs\<rparr>) c' \<noteq> None \<longrightarrow>
             count_list (calls (s\<lparr>calls := calls s @ xs\<rparr>)) (showCmd c') = 1
             \<and> count_list (calls (s\<lparr>calls := calls s @ xs\<rparr>)) (subjectCmd c') = 1)
          \<and> (CommitDiffCache (s\<lparr>calls := calls s @ xs\<rparr>) c' = None \<longrightarrow>
               (\<exists>cd. result (getCommitDiff w c') = Inr cd) \<longrightarrow>
             count_list (calls (s\<lparr>calls := calls s @ xs\<rparr>)) (showCmd c') = 0
             \<and> count_list (calls (s\<lparr>calls := calls s @ xs\<rparr>)) (subjectCmd c') = 0)"
        proof (cases "c' = c")
          case True
          with None Inl show ?thesis by simp
        next
          case False
          with inv other [OF False that] show ?thesis by (simp add: queried_once_def)
        qed
      qed
      from this [of "[showCmd c]"] this [of "[showCmd c, subjectCmd c]"] Inl inv
      show ?thesis
        unfolding getCommitDiff_miss [OF None] by (auto split: sum.splits)
    next
      case (Inr cd)
      with inv None have zero: "count_list (calls s) (showCmd c) = 0"
        "count_list (calls s) (subjectCmd c) = 0"
        unfolding queried_once_def by auto
      have "queried_once w (s\<lparr>calls := calls s @ [showCmd c, subjectCmd c],
              CommitDiffCache := (CommitDiffCache s)(c \<mapsto> cd)\<rparr>)"
        unfolding queried_once_def
      proof (intro allI)
        fix c'
        let ?t = "s\<lparr>calls := calls s @ [showCmd c, subjectCmd c],
              CommitDiffCache := (CommitDiffCache s)(c \<mapsto> cd)\<rparr>"
        show "(CommitDiffCache ?t c' \<noteq> None \<longrightarrow>
             count_list (calls ?t) (showCmd c') = 1 \<and> count_list (calls ?t) (subjectCmd c') = 1)
          \<and> (CommitDiffCache ?t c' = None \<longrightarrow> (\<exists>cd. result (getCommitDiff w c') = Inr cd) \<longrightarrow>
             count_list (calls ?t) (showCmd c') = 0 \<and> count_list (calls ?t) (subjectCmd c') = 0)"
        proof (cases "c' = c")
          case True
          with zero show ?thesis by simp
        next
          case False
          with inv other [OF False, of "[showCmd c, subjectCmd c]"] show ?thesis
            by (simp add: queried_once_def)
        qed
      qed
      with Inr show ?thesis
        unfolding getCommitDiff_miss [OF None]
        by (auto simp: result_getCommitDiff_Inl result_getCommitDiff_Inl2 split: sum.splits)
    qed
  qed
qed

lemma not_fingerprintCmd:
  "\<not> fingerprintCmd [''git'', ''merge-base'', a, b]"
  "\<not> fingerprintCmd [''git'', ''rev-parse'', a]"
  "\<not> fingerprintCmd [''git'', ''log'', ''--format=format:%H'', r]"
  "\<not> fingerprintCmd [''git'', ''--no-pager'', ''diff'', r]"
  "\<not> fingerprintCmd [''git'', ''for-each-ref'', ''--format=%(refname)'', p]"
  "\<not> fingerprintCmd [''git'', ''symbolic-ref'', ''HEAD'']"
  "\<not> fingerprintCmd [''git'', ''branch'', ''-D'', a]"
  by (simp_all add: fingerprintCmd_def showCmd_def subjectCmd_def)

lemma preserves_queried_once_plumbing:
  "preserves (queried_once w) (getGitMergeBase w a b)"
  "preserves (queried_once w) (getGitRevParse w a)"
  "preserves (queried_once w) (getGitDiff w a b)"
  "preserves (queried_once w) (getCommits w a b)"
  "preserves (queried_once w) (getBranches w)"
  "preserves (queried_once w) (getCurrentBranch w)"
  unfolding getGitMergeBase_def getGitRevParse_def getGitDiff_def getCommits_def
    getBranches_def getCurrentBranch_def runCommandSplitLines_def
  by (intro preserves_andThen preserves_runCommandTrimmedOutput not_fingerprintCmd allI
        preserves_succeed)+

lemma preserves_loop:
  assumes "\<And>c. preserves P (getCommitDiff w c)"
  shows "preserves P (findMerged_loop w bd cd cs vars)"
proof (induction cs arbitrary: vars)
  case Nil
  then show ?case by (simp add: preserves_def)
next
  case (Cons c cs)
  obtain h hi hcd where vars: "vars = (h, hi, hcd)" by (cases vars) auto
  show ?case
    unfolding preserves_def vars
  proof (intro allI impI)
    fix s assume "P s"
    then have "P (snd (getCommitDiff w c s))" using assms unfolding preserves_def by blast
    then show "P (snd (findMerged_loop w bd cd (c # cs) (h, hi, hcd) s))"
      using Cons.IH unfolding preserves_def
      by (auto simp: Let_def split: prod.splits sum.splits)
  qed
qed

lemma preserves_findMerged:
  assumes "\<And>c. preserves P (getCommitDiff w c)"
    and "\<And>a b. preserves P (getGitMergeBase w a b)"
    and "\<And>a. preserves P (getGitRevParse w a)"
    and "\<And>a b. preserves P (getGitDiff w a b)"
    and "\<And>a b. preserves P (getCommits w a b)"
  shows "preserves P (findMerged w currentBranch branch)"
  unfolding findMerged_def Let_def
  by (intro preserves_andThen preserves_if preserves_case_option preserves_case_prod3
        preserves_succeed preserves_abort preserves_loop assms allI)

lemma preserves_queried_once_findMerged:
  "preserves (queried_once w) (findMerged w currentBranch branch)"
  by (intro preserves_findMerged preserves_getCommitDiff preserves_queried_once_plumbing)

lemma preserves_print:
  assumes "\<And>s l. P s \<Longrightarrow> P (s\<lparr>printed := printed s @ [l]\<rparr>)"
  shows "preserves P (print l)"
  using assms by (simp add: preserves_def print_def)

lemma preserves_die:
  assumes "\<And>s l. P s \<Longrightarrow> P (s\<lparr>printed := printed s @ [l]\<rparr>)"
  shows "preserves P (die msg args)"
  unfolding die_def
  by (intro preserves_andThen preserves_print preserves_abort allI assms)

lemma preserves_deleteBranch:
  assumes "\<And>s l. P s \<Longrightarrow> P (s\<lparr>printed := printed s @ [l]\<rparr>)"
    and "\<And>s a. P s \<Longrightarrow> P (s\<lparr>calls := calls s @ [[''git'', ''branch'', ''-D'', a]]\<rparr>)"
  shows "preserves P (deleteBranch w branchName)"
  unfolding deleteBranch_def
proof (intro preserves_andThen preserves_print allI assms(1))
  show "preserves P (\<lambda>s. let args = [''git'', ''branch'', ''-D'', branchName] in
          case Output w args of
            Inl err \<Rightarrow> (Inl (Error err), s\<lparr>calls := calls s @ [args]\<rparr>)
          | Inr out \<Rightarrow> (Inr (), s\<lparr>calls := calls s @ [args]\<rparr>))"
    using assms(2) by (auto simp: preserves_def Let_def split: sum.splits)
qed

lemma preserves_deleteOrDie:
  assumes "\<And>s l. P s \<Longrightarrow> P (s\<lparr>printed := printed s @ [l]\<rparr>)"
    and "\<And>s a. P s \<Longrightarrow> P (s\<lparr>calls := calls s @ [[''git'', ''branch'', ''-D'', a]]\<rparr>)"
  shows "preserves P (deleteOrDie w branch)"
  unfolding preserves_def
proof (intro allI impI)
  fix s assume "P s"
  then have 1: "P (snd (deleteBranch w branch s))"
    using preserves_deleteBranch [of P w branch] assms unfolding preserves_def by blast
  have 2: "P (snd (die msg args t))" if "P t" for msg args t
    using preserves_die [of P msg args] assms(1) that unfolding preserves_def by blast
  show "P (snd (deleteOrDie w branch s))"
    using 1 2 unfolding deleteOrDie_def
    by (auto split: prod.splits sum.splits failure.splits)
qed

lemma preserves_main_body:
  assumes "\<And>s l. P s \<Longrightarrow> P (s\<lparr>printed := printed s @ [l]\<rparr>)"
    and "\<And>s a. P s \<Longrightarrow> P (s\<lparr>calls := calls s @ [[''git'', ''branch'', ''-D'', a]]\<rparr>)"
    and "preserves P (findMerged w currentBranch branch)"
  shows "preserves P (main_body w progOpts currentBranch branch)"
  unfolding preserves_def
proof (intro allI impI)
  fix s assume P: "P s"
  obtain r s' where fm: "findMerged w currentBranch branch s = (r, s')"
    by (cases "findMerged w currentBranch branch s")
  with P assms(3) have P': "P s'" unfolding preserves_def by (metis snd_conv)
  have step: "P (snd (m s'))" if "preserves P m" for m :: "unit prog"
    using that P' unfolding preserves_def by blast
  note rules = preserves_andThen preserves_if preserves_succeed
    preserves_print [of P, OF assms(1)] preserves_deleteOrDie [of P, OF assms(1,2)] allI
  show "P (snd (main_body w progOpts currentBranch branch s))"
    unfolding main_body_def Let_def
    using P P' fm
    by (auto split: sum.splits failure.splits option.splits intro!: step rules)
qed

lemma stable_preserves: "stable w m \<Longrightarrow> preserves (cache_ok w) m"
  by (simp add: stable_def preserves_def)

lemma queried_once_initial: "queried_once w initial"
  by (simp add: queried_once_def initial_def)

lemma queried_once_printed [simp]: "queried_once w (s\<lparr>printed := ls\<rparr>) = queried_once w s"
  by (simp add: queried_once_def)

lemma stable_startup: "stable w (getBranches w)" "stable w (getCurrentBranch w)"
  unfolding getBranches_def getCurrentBranch_def
  by (intro stable_andThen stable_runCommandSplitLines stable_runCommandTrimmedOutput
        stable_succeed)+

lemma reachable_invariant:
  "reachable w s \<Longrightarrow> cache_ok w s \<and> queried_once w s"
proof (induction rule: reachable.induct)
  case start
  show ?case by (simp add: cache_ok_initial queried_once_initial)
next
  case (query s args)
  then show ?case
    using stable_preserves [OF stable_runCommandTrimmedOutput]
      preserves_runCommandTrimmedOutput
    unfolding preserves_def by blast
next
  case (lookup s commit)
  then show ?case
    using stable_preserves [OF stable_getCommitDiff] preserves_getCommitDiff
    unfolding preserves_def by blast
next
  case (printing s l)
  then show ?case by (simp add: print_def)
next
  case (deletion s branchName)
  have "preserves (cache_ok w) (deleteBranch w branchName)"
    by (rule preserves_deleteBranch) simp_all
  moreover have "preserves (queried_once w) (deleteBranch w branchName)"
    by (rule preserves_deleteBranch) (simp_all add: queried_once_append not_fingerprintCmd)
  ultimately show ?case using deletion.IH unfolding preserves_def by blast
qed

text \<open>
  The calls of the program lead from states of a run to states of a run: every step
  they take is one of the steps of \<open>reachable\<close>.
\<close>

lemma reachable_query:
  "\<not> fingerprintCmd args \<Longrightarrow> preserves (reachable w) (runCommandTrimmedOutput w args)"
  by (simp add: preserves_def reachable.query)

lemma reachable_plumbing:
  "preserves (reachable w) (getGitMergeBase w a b)"
  "preserves (reachable w) (getGitRevParse w a)"
  "preserves (reachable w) (getGitDiff w a b)"
  "preserves (reachable w) (getCommits w a b)"
  "preserves (reachable w) (getBranches w)"
  "preserves (reachable w) (getCurrentBranch w)"
  unfolding getGitMergeBase_def getGitRevParse_def getGitDiff_def getCommits_def
    getBranches_def getCurrentBranch_def runCommandSplitLines_def
  by (intro preserves_andThen reachable_query not_fingerprintCmd allI preserves_succeed)+

lemma reachable_lookup: "preserves (reachable w) (getCommitDiff w c)"
  by (simp add: preserves_def reachable.lookup)

lemma reachable_findMerged: "preserves (reachable w) (findMerged w currentBranch branch)"
  by (intro preserves_findMerged reachable_lookup reachable_plumbing)

lemma reachable_printed:
  "reachable w s \<Longrightarrow> reachable w (s\<lparr>printed := printed s @ [l]\<rparr>)"
  using reachable.printing [of w s l] by (simp add: print_def)

lemma reachable_deleted:
  "reachable w s \<Longrightarrow> reachable w (s\<lparr>calls := calls s @ [[''git'', ''branch'', ''-D'', a]]\<rparr>)"
  using reachable.query [of w s "[''git'', ''branch'', ''-D'', a]"]
  by (simp add: runCommandTrimmedOutput_run not_fingerprintCmd)

lemma reachable_main_body:
  "preserves (reachable w) (main_body w progOpts currentBranch branch)"
  by (rule preserves_main_body) (simp_all add: reachable_printed reachable_deleted reachable_findMerged)

lemma reachable_main_loop:
  "preserves (reachable w) (main_loop w progOpts currentBranch branches)"
proof (induction branches)
  case Nil
  show ?case by (simp add: preserves_def)
next
  case (Cons branch branches)
  show ?case
    unfolding preserves_def
  proof (intro allI impI)
    fix s assume "reachable w s"
    then have "reachable w (snd (main_body w progOpts currentBranch branch s))"
      using reachable_main_body unfolding preserves_def by blast
    then show "reachable w (snd (main_loop w progOpts currentBranch (branch # branches) s))"
      using Cons.IH unfolding preserves_def
      by (auto split: prod.splits sum.splits)
  qed
qed

lemma reachable_main: "preserves (reachable w) (main w progOpts)"
  unfolding preserves_def
proof (intro allI impI)
  fix s assume r: "reachable w s"
  have die: "reachable w (snd (die msg args t))" if "reachable w t" for msg args t
    using preserves_die [of "reachable w" msg args] reachable_printed that
    unfolding preserves_def by blast
  have s1: "reachable w (snd (getBranches w s))"
    using r reachable_plumbing(5) unfolding preserves_def by blast
  have s2: "reachable w (snd (getCurrentBranch w (snd (getBranches w s))))"
    using s1 reachable_plumbing(6) unfolding preserves_def by blast
  have loop: "reachable w (snd (main_loop w progOpts cur bs t))" if "reachable w t" for cur bs t
    using reachable_main_loop that unfolding preserves_def by blast
  show "reachable w (snd (main w progOpts s))"
    using s1 s2 die loop unfolding main_def
    by (auto split: prod.splits sum.splits failure.splits)
qed

lemma getCommitDiff_stores:
  assumes "getCommitDiff w c s = (Inr cd, s')"
  shows "CommitDiffCache s' c = Some cd"
proof (cases "CommitDiffCache s c")
  case None
  from assms show ?thesis
    unfolding getCommitDiff_miss [OF None]
    by (auto split: sum.splits)
next
  case (Some cd')
  with assms show ?thesis by (simp add: getCommitDiff_hit)
qed

lemma main_body_potentially_merged:
  assumes "findMerged w currentBranch branch s = (Inr (Some pm), s')"
    and "branch \<noteq> currentBranch" and "\<not> Merged pm"
    and "SubjectScore pm > MinSubjectScore progOpts"
    and "DiffScore pm > MinDiffScore progOpts"
    and "\<not> (DiffScore pm = 1 \<and> DiffSize pm > 10)"
  shows "main_body w progOpts currentBranch branch s =
     (Inr (), s'\<lparr>printed := printed s' @
        [Stdout ''%s was **potentially** merged under %s (subject score: %f; diff score %f)\<newline>''
           [S branch, S (MergedSha pm), F (SubjectScore pm), F (DiffScore pm)]]
        @ (if NumCommits pm > 1
           then [Stdout ''WARNING: %s contains %d commits, comparing combined diffs instead (and ommitting commit message)\<newline>''
                   [S branch, D (NumCommits pm)]]
           else [])
        @ [Stdout ''%s\<newline>'' [S (DiffCmd pm)],
           Stdout ''git branch -D %s\<newline>'' [S branch],
           Stdout ''\<newline>'' []]\<rparr>)"
  using assms
  by (auto simp: main_body_def andThen_def print_def succeed_def Let_def)

lemma findMerged_quiet: "preserves (\<lambda>s :: state. printed s = ls) (findMerged w currentBranch branch)"
proof (rule preserves_findMerged)
  show "preserves (\<lambda>s :: state. printed s = ls) (getCommitDiff w c)" for c
    unfolding preserves_def
  proof (intro allI impI)
    fix s :: state assume "printed s = ls"
    then show "printed (snd (getCommitDiff w c s)) = ls"
      by (cases "CommitDiffCache s c")
         (auto simp: getCommitDiff_hit getCommitDiff_miss split: sum.splits)
  qed
  have run: "preserves (\<lambda>s :: state. printed s = ls) (runCommandTrimmedOutput w args)" for args
    by (auto simp: preserves_def runCommandTrimmedOutput_def split: sum.splits)
  show "preserves (\<lambda>s :: state. printed s = ls) (getGitMergeBase w a b)" for a b
    unfolding getGitMergeBase_def by (rule run)
  show "preserves (\<lambda>s :: state. printed s = ls) (getGitRevParse w a)" for a
    unfolding getGitRevParse_def by (rule run)
  show "preserves (\<lambda>s :: state. printed s = ls) (getGitDiff w a b)" for a b
    unfolding getGitDiff_def by (rule run)
  show "preserves (\<lambda>s :: state. printed s = ls) (getCommits w a b)" for a b
    unfolding getCommits_def runCommandSplitLines_def
    by (intro preserves_andThen run preserves_succeed allI)
qed

section \<open>The claims about the detector, the cache and the driver\<close>

text \<open>
  Claim C1 (for a branch of several commits the two combined diffs are compared after
  normalization, so that a squash-merge scores 1.0) fails on the code: the squash path
  hands the two \<^verbatim>\<open>git diff\<close> outputs to the score as they are, while the single-commit
  path compares normalized diffs. In the example the combined diffs of \<^verbatim>\<open>squashed\<close>
  and of \<^verbatim>\<open>m2\<close> differ in their blob hashes only and have the same normal form, yet the
  reported score is the score of the two raw texts, which is not 1, and the reported size
  is the length of the raw trunk diff.
\<close>

theorem findMerged_squash_compares_raw_diffs:
  "result (getGitDiff exampleWorld ''a0'' ''squashed'')
     = Inr ''index 11111111..22222222 100644\<newline>+new''
   \<and> result (getGitDiff exampleWorld ''m2^'' ''m2'')
     = Inr ''index 33333333..44444444 100644\<newline>+new''
   \<and> removeGitShaFromGitDiff ''index 11111111..22222222 100644\<newline>+new''
     = removeGitShaFromGitDiff ''index 33333333..44444444 100644\<newline>+new''
   \<and> fst (findMerged exampleWorld ''main'' ''squashed'' initial) =
       Inr (Some \<lparr>Branch = ''squashed'', MergedSha = ''s2'', Merged = False,
            SubjectScore = 1,
            DiffScore = JaroWinklerDistance exampleWorld
              ''index 33333333..44444444 100644\<newline>+new''
              ''index 11111111..22222222 100644\<newline>+new'',
            DiffSize = length ''index 33333333..44444444 100644\<newline>+new'',
            NumCommits = 2,
            DiffCmd = ''meld <(git --no-pager diff a0..squashed) <(git --no-pager diff m2^..m2)''\<rparr>)
   \<and> JaroWinklerDistance exampleWorld
         ''index 33333333..44444444 100644\<newline>+new''
         ''index 11111111..22222222 100644\<newline>+new'' \<noteq> 1"
  using ex_squashed(5,6) ex_findMerged_squashed
  by (simp add: result_def [of "findMerged exampleWorld ''main'' ''squashed''", symmetric]
      ex_score exampleScore_def removeGitShaFromGitDiff_def NL_def line_defs)

text \<open>
  Claim C2 (the \<open>MergedSha\<close> of a fuzzy verdict is the sha of the best-matching trunk
  commit) fails on the code: both fuzzy returns of \<^verbatim>\<open>findMerged\<close> store
  \<^verbatim>\<open>branchDiff.Sha\<close>, the sha of the branch's own commit. For \<^verbatim>\<open>rebased\<close> the best
  match is the trunk commit \<^verbatim>\<open>m1\<close>, as the comparison command of the verdict says, and
  \<open>MergedSha\<close> is the branch commit \<^verbatim>\<open>r1\<close>.
\<close>

theorem findMerged_fuzzy_MergedSha_is_branch_commit:
  "result (getCommits exampleWorld ''a0'' ''rebased'') = Inr [''r1'']
   \<and> result (getCommits exampleWorld ''a0'' ''main'') = Inr [''m2'', ''m1'']
   \<and> fst (findMerged exampleWorld ''main'' ''rebased'' initial) =
       Inr (Some \<lparr>Branch = ''rebased'', MergedSha = ''r1'', Merged = False,
            SubjectScore = 1, DiffScore = 1, DiffSize = 50, NumCommits = 1,
            DiffCmd = ''meld <(git show rebased) <(git show m1)''\<rparr>)"
  using ex_rebased(3) ex_trunk ex_findMerged_rebased
  by (simp add: result_def [of "findMerged exampleWorld ''main'' ''rebased''", symmetric])

text \<open>
  Claim C3 (with \<^verbatim>\<open>--perfect\<close> no "potentially merged" advice is printed for an
  imperfect verdict) fails on the code: \<^verbatim>\<open>main\<close> never reads the option. With
  \<open>Perfect\<close> set and the default thresholds, the branch \<^verbatim>\<open>tiny\<close> has a verdict with
  both scores 1 and a diff of one character, which the size guard makes imperfect, and
  the advice is printed.
\<close>

theorem main_body_potentially_merged_with_perfect:
  "Perfect exampleOpts
   \<and> fst (findMerged exampleWorld ''main'' ''tiny'' initial) =
       Inr (Some \<lparr>Branch = ''tiny'', MergedSha = ''t1'', Merged = False,
          SubjectScore = 1, DiffScore = 1, DiffSize = 1, NumCommits = 1,
          DiffCmd = ''meld <(git show tiny) <(git show m3)''\<rparr>)
   \<and> printed (snd (main_body exampleWorld exampleOpts ''main'' ''tiny'' initial)) =
       [Stdout ''%s was **potentially** merged under %s (subject score: %f; diff score %f)\<newline>''
          [S ''tiny'', S ''t1'', F 1, F 1],
        Stdout ''%s\<newline>'' [S ''meld <(git show tiny) <(git show m3)''],
        Stdout ''git branch -D %s\<newline>'' [S ''tiny''],
        Stdout ''\<newline>'' []]"
proof -
  let ?pm = "\<lparr>Branch = ''tiny'', MergedSha = ''t1'', Merged = False,
          SubjectScore = 1, DiffScore = 1, DiffSize = 1, NumCommits = 1,
          DiffCmd = ''meld <(git show tiny) <(git show m3)''\<rparr>"
  let ?s = "snd (findMerged exampleWorld ''main'' ''tiny'' initial)"
  have v: "fst (findMerged exampleWorld ''main'' ''tiny'' initial) = Inr (Some ?pm)"
    using ex_findMerged_tiny by (simp add: result_def)
  then have run: "findMerged exampleWorld ''main'' ''tiny'' initial = (Inr (Some ?pm), ?s)"
    by (metis prod.collapse)
  have quiet: "printed ?s = []"
    using findMerged_quiet [of "[]" exampleWorld "''main''" "''tiny''"]
    unfolding preserves_def by (simp add: initial_def)
  have "main_body exampleWorld exampleOpts ''main'' ''tiny'' initial =
     (Inr (), ?s\<lparr>printed := printed ?s @
        [Stdout ''%s was **potentially** merged under %s (subject score: %f; diff score %f)\<newline>''
           [S ''tiny'', S (MergedSha ?pm), F (SubjectScore ?pm), F (DiffScore ?pm)]]
        @ (if NumCommits ?pm > 1
           then [Stdout ''WARNING: %s contains %d commits, comparing combined diffs instead (and ommitting commit message)\<newline>''
                   [S ''tiny'', D (NumCommits ?pm)]]
           else [])
        @ [Stdout ''%s\<newline>'' [S (DiffCmd ?pm)],
           Stdout ''git branch -D %s\<newline>'' [S ''tiny''],
           Stdout ''\<newline>'' []]\<rparr>)"
    by (rule main_body_potentially_merged [OF run]) (simp_all add: exampleOpts_def)
  with v quiet show ?thesis by (simp add: exampleOpts_def)
qed

text \<open>The body of the loop of \<^verbatim>\<open>main\<close> is the same with and without the option.\<close>

lemma main_body_ignores_Perfect:
  "main_body w (progOpts\<lparr>Perfect := p\<rparr>) currentBranch branch s
     = main_body w progOpts currentBranch branch s"
  by (simp add: main_body_def split: prod.splits sum.splits failure.splits option.splits)

text \<open>
  Claim C4: when the tip of the branch is the merge base, \<^verbatim>\<open>findMerged\<close> returns the
  exact verdict, with both scores 1 and no commits, and does nothing but the two queries
  that gave the merge base and the tip: no commit is listed, fingerprinted or compared, and
  the cache is as it was.
\<close>

theorem findMerged_exact:
  assumes "result (getGitMergeBase w currentBranch branch) = Inr base"
    and "result (getGitRevParse w branch) = Inr base"
  shows "findMerged w currentBranch branch s =
           (Inr (Some \<lparr>Branch = branch, MergedSha = base, Merged = True,
                        SubjectScore = 1, DiffScore = 1, DiffSize = 0,
                        NumCommits = 0, DiffCmd = ''''\<rparr>),
            s\<lparr>calls := calls s @ [[''git'', ''merge-base'', currentBranch, branch],
                                   [''git'', ''rev-parse'', branch]]\<rparr>)"
proof -
  let ?s1 = "s\<lparr>calls := calls s @ [[''git'', ''merge-base'', currentBranch, branch]]\<rparr>"
  have 1: "getGitMergeBase w currentBranch branch s = (Inr base, ?s1)"
    using assms(1) runCommandTrimmedOutput_run [of "[''git'', ''merge-base'', currentBranch, branch]" w s]
    by (simp add: getGitMergeBase_def)
  have 2: "getGitRevParse w branch ?s1
             = (Inr base, ?s1\<lparr>calls := calls ?s1 @ [[''git'', ''rev-parse'', branch]]\<rparr>)"
    using assms(2) runCommandTrimmedOutput_run [of "[''git'', ''rev-parse'', branch]" w ?s1]
    by (simp add: getGitRevParse_def)
  show ?thesis
    unfolding findMerged_def
    by (simp only: andThen_Inr [of "getGitMergeBase w currentBranch branch" s, OF 1]
          andThen_Inr [of "getGitRevParse w branch" ?s1, OF 2] if_True succeed_def simp_thms)
       simp
qed

text \<open>The branch \<^verbatim>\<open>merged\<close> of the example is such a branch.\<close>

theorem findMerged_exact_witness:
  "result (getGitMergeBase exampleWorld ''main'' ''merged'') = Inr ''a0''
   \<and> result (getGitRevParse exampleWorld ''merged'') = Inr ''a0''
   \<and> findMerged exampleWorld ''main'' ''merged'' initial =
       (Inr (Some \<lparr>Branch = ''merged'', MergedSha = ''a0'', Merged = True,
                    SubjectScore = 1, DiffScore = 1, DiffSize = 0,
                    NumCommits = 0, DiffCmd = ''''\<rparr>),
        initial\<lparr>calls := calls initial @ [[''git'', ''merge-base'', ''main'', ''merged''],
                                             [''git'', ''rev-parse'', ''merged'']]\<rparr>)"
  using findMerged_exact [OF ex_merged, of initial] ex_merged by simp

text \<open>
  Claim C5 (the representative fingerprint is that of the earliest new commit) fails on
  the code. The commits of \<^verbatim>\<open>squashed\<close> are listed latest first, \<^verbatim>\<open>s2\<close> before
  \<^verbatim>\<open>s1\<close>, and the verdict carries the sha of \<^verbatim>\<open>s2\<close> and the subject score of the
  subject of \<^verbatim>\<open>s2\<close>; the subject of the earliest commit \<^verbatim>\<open>s1\<close> scores lower.
\<close>

theorem findMerged_representative_not_earliest:
  "result (getCommits exampleWorld ''a0'' ''squashed'') = Inr [''s2'', ''s1'']
   \<and> exampleTime ''s1'' < exampleTime ''s2''
   \<and> result (getCommitDiff exampleWorld ''s1'')
       = Inr \<lparr>Sha = ''s1'', Subject = ''wip'', Diff = ''\<newline>''\<rparr>
   \<and> result (getCommitDiff exampleWorld ''s2'')
       = Inr \<lparr>Sha = ''s2'', Subject = ''add it'', Diff = ''\<newline>''\<rparr>
   \<and> fst (findMerged exampleWorld ''main'' ''squashed'' initial) =
       Inr (Some \<lparr>Branch = ''squashed'', MergedSha = ''s2'', Merged = False,
            SubjectScore = JaroWinklerDistance exampleWorld ''add it'' ''add it'',
            DiffScore = 1 / 2, DiffSize = 36, NumCommits = 2,
            DiffCmd = ''meld <(git --no-pager diff a0..squashed) <(git --no-pager diff m2^..m2)''\<rparr>)
   \<and> JaroWinklerDistance exampleWorld ''wip'' ''add it''
       < JaroWinklerDistance exampleWorld ''add it'' ''add it''"
  using ex_squashed(3,4) ex_s1 ex_findMerged_squashed
  by (simp add: result_def [of "findMerged exampleWorld ''main'' ''squashed''", symmetric]
      exampleTime_def ex_score exampleScore_def)

text \<open>
  Claim C5 as amended: when the commits of the branch are listed in reverse chronological
  order, the representative fingerprint is that of element 0 of the list, which is the
  latest new commit of the branch. A fuzzy verdict carries its sha, and its subject score
  is the score of that commit's subject against the subject of a fingerprinted commit.
\<close>

theorem findMerged_representative_is_latest:
  assumes "cache_ok w s"
    and "result (getGitMergeBase w currentBranch branch) = Inr base"
    and "result (getCommits w base branch) = Inr bcs"
    and "sorted_wrt (\<lambda>a b. commitTime b < commitTime a) bcs"
    and "fst (findMerged w currentBranch branch s) = Inr (Some v)" and "\<not> Merged v"
  shows "bcs \<noteq> [] \<and> (\<forall>c \<in> set bcs. (commitTime c :: nat) \<le> commitTime (bcs ! 0))
         \<and> (\<exists>bd c f. result (getCommitDiff w (bcs ! 0)) = Inr bd
                \<and> MergedSha v = bcs ! 0 \<and> Sha bd = bcs ! 0
                \<and> result (getCommitDiff w c) = Inr f
                \<and> SubjectScore v = JaroWinklerDistance w (Subject bd) (Subject f))"
proof -
  from assms(1,5) have r: "result (findMerged w currentBranch branch) = Inr (Some v)"
    by (simp add: fst_findMerged)
  from result_findMerged_cases [OF r assms(6,2,3)]
  obtain bd cd cs h highest hcd where ne: "bcs \<noteq> []"
    and bd: "result (getCommitDiff w (bcs ! 0)) = Inr bd"
    and loop: "result (findMerged_loop w bd cd cs (0, None, '''')) = Inr (h, Some highest, hcd)"
    and v: "MergedSha v = Sha bd" "SubjectScore v = h"
    by blast
  from loop_result [OF loop]
  obtain c where h: "h = JaroWinklerDistance w (Subject bd) (Subject highest)"
    and c: "result (getCommitDiff w c) = Inr highest" by auto
  have sha: "Sha bd = bcs ! 0" using bd by (rule result_getCommitDiff_Sha)
  obtain c rest where bcs: "bcs = c # rest" using ne by (cases bcs) auto
  with assms(4) have "\<forall>c' \<in> set bcs. commitTime c' \<le> commitTime (bcs ! 0)"
    by (auto intro: less_imp_le)
  with ne bd v h sha c show ?thesis by auto
qed

text \<open>The branch \<^verbatim>\<open>squashed\<close> of the example, with \<^verbatim>\<open>s2\<close> later than \<^verbatim>\<open>s1\<close>.\<close>

theorem findMerged_representative_is_latest_witness:
  "cache_ok exampleWorld initial
   \<and> result (getGitMergeBase exampleWorld ''main'' ''squashed'') = Inr ''a0''
   \<and> result (getCommits exampleWorld ''a0'' ''squashed'') = Inr [''s2'', ''s1'']
   \<and> sorted_wrt (\<lambda>a b. exampleTime b < exampleTime a) [''s2'', ''s1'']
   \<and> exampleTime ''s2'' \<le> exampleTime ([''s2'', ''s1''] ! 0)
   \<and> exampleTime ''s1'' \<le> exampleTime ([''s2'', ''s1''] ! 0)
   \<and> (\<exists>v bd c f. fst (findMerged exampleWorld ''main'' ''squashed'' initial) = Inr (Some v)
         \<and> \<not> Merged v
         \<and> result (getCommitDiff exampleWorld ([''s2'', ''s1''] ! 0)) = Inr bd
         \<and> MergedSha v = [''s2'', ''s1''] ! 0 \<and> Sha bd = [''s2'', ''s1''] ! 0
         \<and> result (getCommitDiff exampleWorld c) = Inr f
         \<and> SubjectScore v = JaroWinklerDistance exampleWorld (Subject bd) (Subject f))"
proof -
  let ?v = "\<lparr>Branch = ''squashed'', MergedSha = ''s2'', Merged = False,
          SubjectScore = 1, DiffScore = 1 / 2, DiffSize = 36, NumCommits = 2,
          DiffCmd = ''meld <(git --no-pager diff a0..squashed) <(git --no-pager diff m2^..m2)''\<rparr>"
  have sorted: "sorted_wrt (\<lambda>a b. exampleTime b < exampleTime a) [''s2'', ''s1'']"
    by (simp add: exampleTime_def)
  have v: "fst (findMerged exampleWorld ''main'' ''squashed'' initial) = Inr (Some ?v)"
    using ex_findMerged_squashed by (simp add: result_def)
  have fuzzy: "\<not> Merged ?v" by simp
  from findMerged_representative_is_latest [OF cache_ok_initial ex_squashed(1,3) sorted v fuzzy]
  show ?thesis
    using ex_squashed(1,3) sorted v by (auto simp: cache_ok_initial)
qed




text \<open>
  Claim C9: at any point of a run, also between the queries and the lookups inside
  \<^verbatim>\<open>findMerged\<close>, a lookup that returns a fingerprint returns the value that
  \<^verbatim>\<open>getCommitDiff\<close> computes for that sha in this repository (so every lookup of the
  sha returns that same value), the next lookup returns it again without changing the
  state (so without a query), and the commit-show and the commit-subject query of that
  sha have been run exactly once in the whole run so far.
\<close>

theorem getCommitDiff_cached_once:
  assumes "reachable w s" and "getCommitDiff w c s = (Inr cd, s')"
  shows "getCommitDiff w c s' = (Inr cd, s')
         \<and> result (getCommitDiff w c) = Inr cd
         \<and> count_list (calls s') (showCmd c) = 1
         \<and> count_list (calls s') (subjectCmd c) = 1"
proof -
  have "reachable w s'" using reachable.lookup [OF assms(1), of c] assms(2) by simp
  then have inv: "cache_ok w s'" "queried_once w s'" using reachable_invariant by blast+
  have stored: "CommitDiffCache s' c = Some cd" using assms(2) by (rule getCommitDiff_stores)
  from stored have "getCommitDiff w c s' = (Inr cd, s')" by (rule getCommitDiff_hit)
  moreover from stored inv(1) have "result (getCommitDiff w c) = Inr cd"
    by (simp add: cache_ok_def)
  moreover from stored inv(2) have "count_list (calls s') (showCmd c) = 1"
    "count_list (calls s') (subjectCmd c) = 1"
    by (simp_all add: queried_once_def)
  ultimately show ?thesis by simp
qed

text \<open>
  Two lookups of the detection for \<^verbatim>\<open>rebased\<close>. The first is the one
  \<^verbatim>\<open>findMerged\<close> itself makes for the branch commit \<^verbatim>\<open>r1\<close>, in the state it has
  reached after the merge-base, the rev-parse and the log query. The second comes after
  the detection, which fingerprinted the trunk commit \<^verbatim>\<open>m1\<close>: a lookup of \<^verbatim>\<open>m1\<close>
  returns that fingerprint, and the two queries of \<^verbatim>\<open>m1\<close> have still been run once.
\<close>

theorem getCommitDiff_cached_once_witness:
  "reachable exampleWorld
     (snd (getCommits exampleWorld ''a0'' ''rebased''
       (snd (getGitRevParse exampleWorld ''rebased''
         (snd (getGitMergeBase exampleWorld ''main'' ''rebased'' initial))))))
   \<and> fst (getCommitDiff exampleWorld ''r1''
       (snd (getCommits exampleWorld ''a0'' ''rebased''
         (snd (getGitRevParse exampleWorld ''rebased''
           (snd (getGitMergeBase exampleWorld ''main'' ''rebased'' initial)))))))
       = Inr \<lparr>Sha = ''r1'', Subject = ''fix bug'',
              Diff = ''diff --git a b\<newline>index zzzzzzzz..zzzzzzzz 100644\<newline>+x\<newline>''\<rparr>
   \<and> count_list (calls (snd (getCommitDiff exampleWorld ''r1''
       (snd (getCommits exampleWorld ''a0'' ''rebased''
         (snd (getGitRevParse exampleWorld ''rebased''
           (snd (getGitMergeBase exampleWorld ''main'' ''rebased'' initial))))))))) (showCmd ''r1'') = 1
   \<and> count_list (calls (snd (getCommitDiff exampleWorld ''r1''
       (snd (getCommits exampleWorld ''a0'' ''rebased''
         (snd (getGitRevParse exampleWorld ''rebased''
           (snd (getGitMergeBase exampleWorld ''main'' ''rebased'' initial))))))))) (subjectCmd ''r1'') = 1
   \<and> reachable exampleWorld (snd (findMerged exampleWorld ''main'' ''rebased'' initial))
   \<and> fst (getCommitDiff exampleWorld ''m1''
            (snd (findMerged exampleWorld ''main'' ''rebased'' initial)))
       = Inr \<lparr>Sha = ''m1'', Subject = ''fix bug'',
              Diff = ''diff --git a b\<newline>index zzzzzzzz..zzzzzzzz 100644\<newline>+x\<newline>''\<rparr>
   \<and> count_list (calls (snd (getCommitDiff exampleWorld ''m1''
            (snd (findMerged exampleWorld ''main'' ''rebased'' initial))))) (showCmd ''m1'') = 1
   \<and> count_list (calls (snd (getCommitDiff exampleWorld ''m1''
            (snd (findMerged exampleWorld ''main'' ''rebased'' initial))))) (subjectCmd ''m1'') = 1"
proof -
  let ?t = "snd (getCommits exampleWorld ''a0'' ''rebased''
       (snd (getGitRevParse exampleWorld ''rebased''
         (snd (getGitMergeBase exampleWorld ''main'' ''rebased'' initial)))))"
  let ?s = "snd (findMerged exampleWorld ''main'' ''rebased'' initial)"
  let ?r1 = "\<lparr>Sha = ''r1'', Subject = ''fix bug'',
              Diff = ''diff --git a b\<newline>index zzzzzzzz..zzzzzzzz 100644\<newline>+x\<newline>''\<rparr>"
  let ?m1 = "\<lparr>Sha = ''m1'', Subject = ''fix bug'',
              Diff = ''diff --git a b\<newline>index zzzzzzzz..zzzzzzzz 100644\<newline>+x\<newline>''\<rparr>"
  have rt: "reachable exampleWorld ?t"
    using reachable_plumbing(1,2,4) reachable.start unfolding preserves_def by blast
  then have "cache_ok exampleWorld ?t" using reachable_invariant by blast
  then have miss: "fst (getCommitDiff exampleWorld ''r1'' ?t) = Inr ?r1"
    using stable_getCommitDiff ex_rebased(4) unfolding stable_def by metis
  then have run_t: "getCommitDiff exampleWorld ''r1'' ?t
                    = (Inr ?r1, snd (getCommitDiff exampleWorld ''r1'' ?t))"
    by (metis prod.collapse)
  have rs: "reachable exampleWorld ?s"
    using reachable_findMerged reachable.start unfolding preserves_def by blast
  then have "cache_ok exampleWorld ?s" using reachable_invariant by blast
  then have hit: "fst (getCommitDiff exampleWorld ''m1'' ?s) = Inr ?m1"
    using stable_getCommitDiff ex_m1 unfolding stable_def by metis
  then have run_s: "getCommitDiff exampleWorld ''m1'' ?s
                    = (Inr ?m1, snd (getCommitDiff exampleWorld ''m1'' ?s))"
    by (metis prod.collapse)
  from getCommitDiff_cached_once [OF rt run_t] getCommitDiff_cached_once [OF rs run_s]
    rt rs miss hit
  show ?thesis by simp
qed

text \<open>
  Claim C10: a branch with more than one commit since the merge base whose combined diff
  is the empty string makes \<^verbatim>\<open>findMerged\<close> panic with "expected single commit",
  whenever the queries succeed and some trunk commit has a subject score above 0: the
  empty \<^verbatim>\<open>highestCombinedDiff\<close> sends the call down the single-commit path.
\<close>

theorem findMerged_panics_on_empty_combined_diff:
  assumes "cache_ok w s"
    and "result (getGitMergeBase w currentBranch branch) = Inr base"
    and "result (getGitRevParse w branch) = Inr tip" and "base \<noteq> tip"
    and "result (getCommits w base branch) = Inr bcs" and "length bcs > 1"
    and "result (getCommitDiff w (bcs ! 0)) = Inr bd"
    and "result (getGitDiff w base branch) = Inr ''''"
    and "result (getCommits w base currentBranch) = Inr cs"
    and "\<forall>c \<in> set cs. result (getCommitDiff w c) = Inr (fp c)"
    and "\<exists>c \<in> set cs. 0 < JaroWinklerDistance w (Subject bd) (Subject (fp c))"
  shows "fst (findMerged w currentBranch branch s) = Inl (Panic ''expected single commit'')"
proof -
  from loop_best [OF assms(10), of bd "''''" 0 None "''''"]
  obtain h hi hcd where
    r: "result (findMerged_loop w bd '''' cs (0, None, '''')) = Inr (h, hi, hcd)"
    and all: "\<forall>c \<in> set cs. JaroWinklerDistance w (Subject bd) (Subject (fp c)) \<le> h"
    and which: "(h = 0 \<and> hi = None \<and> hcd = '''')
                \<or> (\<exists>c \<in> set cs. hi = Some (fp c) \<and> hcd = '''' \<and> 0 < h
                      \<and> h = JaroWinklerDistance w (Subject bd) (Subject (fp c)))"
    by blast
  from assms(11) all have "0 < h" by fastforce
  with which obtain highest where hi: "hi = Some highest" and hcd: "hcd = ''''" by auto
  have ne: "bcs \<noteq> []" using assms(6) by auto
  have cd: "(if length bcs > 1 then result (getGitDiff w base branch) else Inr '''') = Inr ''''"
    using assms(6,8) by simp
  from result_findMerged_fuzzy [OF assms(2-5) ne assms(7) cd assms(9) r] hi hcd assms(6)
  have "result (findMerged w currentBranch branch) = Inl (Panic ''expected single commit'')"
    by simp
  then show ?thesis by (simp add: fst_findMerged [OF assms(1)])
qed

text \<open>The branch \<^verbatim>\<open>emptied\<close> of the example.\<close>

theorem findMerged_panics_witness:
  "cache_ok exampleWorld initial
   \<and> result (getCommits exampleWorld ''a0'' ''emptied'') = Inr [''e2'', ''e1'']
   \<and> result (getGitDiff exampleWorld ''a0'' ''emptied'') = Inr ''''
   \<and> result (getCommits exampleWorld ''a0'' ''main'') = Inr [''m2'', ''m1'']
   \<and> 0 < JaroWinklerDistance exampleWorld ''fix bug'' (Subject (exampleFingerprint ''m1''))
   \<and> fst (findMerged exampleWorld ''main'' ''emptied'' initial)
       = Inl (Panic ''expected single commit'')"
proof -
  have ne: "''a0'' \<noteq> ''e2''" "length [''e2'', ''e1''] > 1" by simp_all
  have bd: "result (getCommitDiff exampleWorld ([''e2'', ''e1''] ! 0))
              = Inr \<lparr>Sha = ''e2'', Subject = ''fix bug'', Diff = ''\<newline>''\<rparr>"
    using ex_emptied(4) by simp
  have fp: "\<forall>c \<in> set [''m2'', ''m1''].
              result (getCommitDiff exampleWorld c) = Inr (exampleFingerprint c)"
    by (simp add: exampleFingerprint_def ex_m1 ex_m2)
  have pos: "\<exists>c \<in> set [''m2'', ''m1''].
      0 < JaroWinklerDistance exampleWorld
            (Subject \<lparr>Sha = ''e2'', Subject = ''fix bug'', Diff = ''\<newline>''\<rparr>)
            (Subject (exampleFingerprint c))"
    by (simp add: exampleFingerprint_def ex_m1 ex_m2 ex_score exampleScore_def)
  from findMerged_panics_on_empty_combined_diff [OF cache_ok_initial ex_emptied(1,2) ne(1)
      ex_emptied(3) ne(2) bd ex_emptied(5) ex_trunk fp pos]
  show ?thesis
    using ex_emptied ex_trunk
    by (simp add: cache_ok_initial exampleFingerprint_def ex_m1 ex_score exampleScore_def)
qed

end
